theory Spec2Isabelle
  imports Complex_Main
begin

section \<open>Strings of the host language\<close>

text \<open>
  The plugin is TypeScript. A string there is a sequence of UTF-16 code units, and every
  operation the plugin uses on strings (regular-expression matching, \<open>replace\<close>,
  \<open>split\<close>, \<open>includes\<close>, \<open>startsWith\<close>) works on code units. A string is
  therefore modelled as the list of its code units; \<open>lit\<close> turns a literal of the
  theory into such a list.
\<close>

type_synonym jstring = "nat list"

definition lit :: "string \<Rightarrow> jstring" where
  "lit s = map of_char s"

text \<open>
  The white space of the language: what \<open>\s\<close> matches in a regular expression and what
  \<open>trim\<close> removes (tab, line feed, vertical tab, form feed, carriage return, space,
  no-break space, the Unicode space separators, the line and paragraph separators and
  the byte order mark).
\<close>

definition js_space :: "nat \<Rightarrow> bool" where
  "js_space c \<longleftrightarrow>
     c = 9 \<or> c = 10 \<or> c = 11 \<or> c = 12 \<or> c = 13 \<or> c = 32 \<or> c = 160 \<or> c = 5760 \<or>
     (8192 \<le> c \<and> c \<le> 8202) \<or> c = 8232 \<or> c = 8233 \<or> c = 8239 \<or> c = 8287 \<or>
     c = 12288 \<or> c = 65279"

definition startsWith :: "jstring \<Rightarrow> jstring \<Rightarrow> bool" where
  "startsWith s p \<longleftrightarrow> take (length p) s = p"

definition trim :: "jstring \<Rightarrow> jstring" where
  "trim s = rev (dropWhile js_space (rev (dropWhile js_space s)))"

text \<open>
  \<open>s.replace(pat, rep)\<close> with a string pattern replaces the first occurrence of
  \<open>pat\<close> only. (The replacement text the plugin passes contains no dollar sign, so
  none of the special replacement patterns applies.)
\<close>

fun replace_first :: "jstring \<Rightarrow> jstring \<Rightarrow> jstring \<Rightarrow> jstring" where
  "replace_first pat rep [] = (if pat = [] then rep else [])"
| "replace_first pat rep (c # cs) =
     (if startsWith (c # cs) pat then rep @ drop (length pat) (c # cs)
      else c # replace_first pat rep cs)"

text \<open>
  \<open>s.replace(/xy/g, rep)\<close> for a pattern of two literal code units: every occurrence,
  found from left to right, is replaced; the scan goes on after the replaced pair.
\<close>

fun replace_pair :: "nat \<Rightarrow> nat \<Rightarrow> jstring \<Rightarrow> jstring \<Rightarrow> jstring" where
  "replace_pair a b rep (x # y # zs) =
     (if x = a \<and> y = b then rep @ replace_pair a b rep zs
      else x # replace_pair a b rep (y # zs))"
| "replace_pair a b rep xs = xs"

text \<open>\<open>s.replace(/x/g, '')\<close> for one literal code unit deletes every occurrence.\<close>

definition delete_all :: "nat \<Rightarrow> jstring \<Rightarrow> jstring" where
  "delete_all a s = filter (\<lambda>c. c \<noteq> a) s"

text \<open>The decimal numeral of a natural number, as a template literal prints it.\<close>

fun show_nat :: "nat \<Rightarrow> jstring" where
  "show_nat n = (if n < 10 then [48 + n] else show_nat (n div 10) @ [48 + n mod 10])"

declare show_nat.simps [simp del]

section \<open>The pattern that finds the code section\<close>

text \<open>
  The tolerant path of the parser looks for the code section with the pattern
  \<^verbatim>\<open>/("code"\s*:\s*")(.*?)("(?=\s*[}\],]))/s\<close>.
  Group 1 is the key, a colon and the opening quote, with optional white space around
  the colon. Group 2 is lazy and, with the \<open>s\<close> flag, matches any code unit. Group 3
  is a quote that is followed, after optional white space, by a closing brace, a closing
  bracket or a comma. The white-space runs are greedy, but giving white space back never
  helps the next item to match, so at each starting position the match is found by one
  scan from left to right.
\<close>

definition lookahead_delim :: "jstring \<Rightarrow> bool" where
  "lookahead_delim s =
     (case dropWhile js_space s of
        [] \<Rightarrow> False
      | d # _ \<Rightarrow> d = 125 \<or> d = 93 \<or> d = 44)"

text \<open>
  Groups 2 and 3 from the position after the opening quote: the shortest text that is
  followed by an accepted closing quote. The result is group 2.
\<close>

fun lazy_body :: "jstring \<Rightarrow> jstring option" where
  "lazy_body [] = None"
| "lazy_body (c # cs) =
     (if c = 34 \<and> lookahead_delim cs then Some []
      else map_option (\<lambda>g. c # g) (lazy_body cs))"

text \<open>Group 1 at the start of the text: the result is group 1 and the text after it.\<close>

definition code_key :: "jstring \<Rightarrow> (jstring \<times> jstring) option" where
  "code_key s =
     (if startsWith s (lit ''\"code\"'') then
        (let s1 = drop 6 s; w1 = takeWhile js_space s1 in
         case dropWhile js_space s1 of
           [] \<Rightarrow> None
         | c # s2 \<Rightarrow>
             if c = 58 then
               (let w2 = takeWhile js_space s2 in
                case dropWhile js_space s2 of
                  [] \<Rightarrow> None
                | q # s3 \<Rightarrow>
                    if q = 34 then Some (lit ''\"code\"'' @ w1 @ [58] @ w2 @ [34], s3)
                    else None)
             else None)
      else None)"

text \<open>
  The result of a match, as the array \<open>codeMatch\<close> holds it: index 0 is the whole
  matched text, index 2 the captured payload.
\<close>

record code_match =
  whole :: jstring
  payload :: jstring

definition match_here :: "jstring \<Rightarrow> code_match option" where
  "match_here s =
     (case code_key s of
        None \<Rightarrow> None
      | Some (g1, r) \<Rightarrow>
          (case lazy_body r of
             None \<Rightarrow> None
           | Some g2 \<Rightarrow> Some \<lparr>whole = g1 @ g2 @ [34], payload = g2\<rparr>))"

text \<open>\<open>source.match(re)\<close> without the \<open>g\<close> flag: the match at the leftmost position.\<close>

fun regex_match :: "jstring \<Rightarrow> code_match option" where
  "regex_match [] = match_here []"
| "regex_match (c # cs) =
     (case match_here (c # cs) of
        Some m \<Rightarrow> Some m
      | None \<Rightarrow> regex_match cs)"

text \<open>
  The three replacements applied to the captured payload, in the order of the source:
  backslash followed by \<open>n\<close> becomes a line feed, backslash followed by a quote becomes
  a quote, and then every backslash is deleted.
\<close>

definition actualCode :: "jstring \<Rightarrow> jstring" where
  "actualCode g2 = delete_all 92 (replace_pair 92 34 [34] (replace_pair 92 110 [10] g2))"

section \<open>Values\<close>

text \<open>
  The values the plugin handles: what \<open>JSON.parse\<close> can return (null, booleans,
  numbers, strings, arrays, objects), \<open>undefined\<close> for a property that is not there,
  the further values the delimiter-separated-values parser can put into a field (a date,
  not-a-number), and objects of the libraries (a module, a mark) and elements of the
  document (a rendered graphic), which the plugin only passes on and which are known
  by a handle.

  A number is kept as the exact value of its numeral. The engine stores the nearest
  double; the plugin never computes with a number, it only tests values for being
  falsy, and a double is zero exactly when the exact value is at most \<open>2\<close> to the
  power \<open>-1075\<close> in absolute value (the rounding is to nearest, ties to even).

  An array may carry named properties beside its elements: the plugin's assignment to
  \<open>config.code\<close> puts one there when the configuration is an array, and the parser
  for separated values returns an array with a property \<open>columns\<close>.
\<close>

datatype jsval =
    JUndefined
  | JNull
  | JBool bool
  | JNum rat
  | JNaN
  | JStr jstring
  | JDate jstring
  | JArr "jsval list" "(jstring \<times> jsval) list"
  | JObj "(jstring \<times> jsval) list"
  | JHost nat
  | JElement nat

text \<open>\<open>if (v)\<close> and \<open>!v\<close>: the values that count as true.\<close>

fun truthy :: "jsval \<Rightarrow> bool" where
  "truthy JUndefined = False"
| "truthy JNull = False"
| "truthy (JBool b) = b"
| "truthy (JNum r) = (\<bar>r\<bar> > 1 / 2 ^ 1075)"
| "truthy JNaN = False"
| "truthy (JStr s) = (s \<noteq> [])"
| "truthy (JDate s) = True"
| "truthy (JArr xs ps) = True"
| "truthy (JObj ps) = True"
| "truthy (JHost h) = True"
| "truthy (JElement h) = True"

text \<open>
  Errors. Every error the plugin throws or catches is an \<open>Error\<close> object, and the
  only thing the plugin ever reads from one is its message. The errors the engine
  raises by itself (malformed JSON, a property read from null) have a message that
  depends on the engine; the model takes it from the environment.
\<close>

datatype js_error = Error (message: jstring)

datatype fault =
    BadJson jstring
  | ReadOfNullish jsval jstring
  | WriteToPrimitive jsval jstring
  | NotANode jsval

text \<open>
  Setting and reading a property. An object literal of JSON keeps a key once: a later
  value for the same key replaces the earlier one.
\<close>

fun put :: "(jstring \<times> jsval) list \<Rightarrow> jstring \<Rightarrow> jsval \<Rightarrow> (jstring \<times> jsval) list" where
  "put [] k v = [(k, v)]"
| "put ((k', v') # ps) k v = (if k' = k then (k, v) # ps else (k', v') # put ps k v)"

definition lookup :: "(jstring \<times> jsval) list \<Rightarrow> jstring \<Rightarrow> jsval" where
  "lookup ps k = (case map_of ps k of None \<Rightarrow> JUndefined | Some v \<Rightarrow> v)"

text \<open>
  \<open>v.k\<close> for the property names the plugin reads (\<open>data\<close>, \<open>dataUrl\<close>,
  \<open>code\<close>, \<open>objects\<close>, \<open>type\<close>): none of them is inherited from a prototype,
  so an object or an array has the property only if it owns it, and a primitive value
  does not have it. Reading from \<open>null\<close> or \<open>undefined\<close> raises.
\<close>

fun get_prop :: "jsval \<Rightarrow> jstring \<Rightarrow> fault + jsval" where
  "get_prop JUndefined k = Inl (ReadOfNullish JUndefined k)"
| "get_prop JNull k = Inl (ReadOfNullish JNull k)"
| "get_prop (JObj ps) k = Inr (lookup ps k)"
| "get_prop (JArr xs ps) k = Inr (lookup ps k)"
| "get_prop v k = Inr JUndefined"

text \<open>
  \<open>v.k = x\<close> in strict code (the body of a class is strict): it raises on a
  primitive value as well as on \<open>null\<close> and \<open>undefined\<close>.
\<close>

fun set_prop :: "jsval \<Rightarrow> jstring \<Rightarrow> jsval \<Rightarrow> fault + jsval" where
  "set_prop (JObj ps) k x = Inr (JObj (put ps k x))"
| "set_prop (JArr xs ps) k x = Inr (JArr xs (put ps k x))"
| "set_prop v k x = Inl (WriteToPrimitive v k)"


section \<open>JSON.parse\<close>

text \<open>
  The grammar of JSON as \<open>JSON.parse\<close> accepts it. White space is space, tab, line
  feed and carriage return. A string may not contain a raw code unit below 32: this is
  why a configuration with a code payload of several lines is rejected by the direct
  path.
\<close>

definition json_ws :: "nat \<Rightarrow> bool" where
  "json_ws c \<longleftrightarrow> c = 32 \<or> c = 9 \<or> c = 10 \<or> c = 13"

definition skip_ws :: "jstring \<Rightarrow> jstring" where
  "skip_ws s = dropWhile json_ws s"

definition is_digit :: "nat \<Rightarrow> bool" where
  "is_digit c \<longleftrightarrow> 48 \<le> c \<and> c \<le> 57"

definition hex_val :: "nat \<Rightarrow> nat option" where
  "hex_val c =
     (if 48 \<le> c \<and> c \<le> 57 then Some (c - 48)
      else if 65 \<le> c \<and> c \<le> 70 then Some (c - 55)
      else if 97 \<le> c \<and> c \<le> 102 then Some (c - 87)
      else None)"

definition hex4 :: "nat \<Rightarrow> nat \<Rightarrow> nat \<Rightarrow> nat \<Rightarrow> nat option" where
  "hex4 a b c d =
     (case (hex_val a, hex_val b, hex_val c, hex_val d) of
        (Some x, Some y, Some z, Some w) \<Rightarrow> Some (((x * 16 + y) * 16 + z) * 16 + w)
      | _ \<Rightarrow> None)"

definition escape_unit :: "nat \<Rightarrow> nat option" where
  "escape_unit e =
     (if e = 34 then Some 34
      else if e = 92 then Some 92
      else if e = 47 then Some 47
      else if e = 98 then Some 8
      else if e = 102 then Some 12
      else if e = 110 then Some 10
      else if e = 114 then Some 13
      else if e = 116 then Some 9
      else None)"

definition cons_fst :: "nat \<Rightarrow> (jstring \<times> jstring) option \<Rightarrow> (jstring \<times> jstring) option" where
  "cons_fst c r = map_option (\<lambda>(s, rest). (c # s, rest)) r"

text \<open>A string from the position after its opening quote: its value and the rest.\<close>

fun json_string :: "jstring \<Rightarrow> (jstring \<times> jstring) option" where
  "json_string [] = None"
| "json_string (c # cs) =
     (if c = 34 then Some ([], cs)
      else if c = 92 then
        (case cs of
           [] \<Rightarrow> None
         | e # r \<Rightarrow>
             if e = 117 then
               (case r of
                  h1 # h2 # h3 # h4 # r' \<Rightarrow>
                    (case hex4 h1 h2 h3 h4 of
                       None \<Rightarrow> None
                     | Some u \<Rightarrow> cons_fst u (json_string r'))
                | _ \<Rightarrow> None)
             else
               (case escape_unit e of
                  None \<Rightarrow> None
                | Some u \<Rightarrow> cons_fst u (json_string r)))
      else if c < 32 then None
      else cons_fst c (json_string cs))"

definition digits_val :: "jstring \<Rightarrow> nat" where
  "digits_val ds = foldl (\<lambda>a d. 10 * a + (d - 48)) 0 ds"

text \<open>
  A number: an optional minus sign, an integer part without a leading zero, an
  optional fraction, an optional exponent. The result is the exact value.
\<close>

definition json_int_part :: "jstring \<Rightarrow> (jstring \<times> jstring) option" where
  "json_int_part s =
     (case s of
        [] \<Rightarrow> None
      | d # r \<Rightarrow>
          if d = 48 then Some ([48], r)
          else if is_digit d then Some (takeWhile is_digit s, dropWhile is_digit s)
          else None)"

definition json_frac_part :: "jstring \<Rightarrow> (jstring \<times> jstring) option" where
  "json_frac_part s =
     (case s of
        [] \<Rightarrow> Some ([], s)
      | p # r \<Rightarrow>
          if p = 46 then
            (if takeWhile is_digit r = [] then None
             else Some (takeWhile is_digit r, dropWhile is_digit r))
          else Some ([], s))"

definition json_exp_digits :: "jstring \<Rightarrow> (nat \<times> jstring) option" where
  "json_exp_digits s =
     (if takeWhile is_digit s = [] then None
      else Some (digits_val (takeWhile is_digit s), dropWhile is_digit s))"

definition json_exp_part :: "jstring \<Rightarrow> (int \<times> jstring) option" where
  "json_exp_part s =
     (case s of
        [] \<Rightarrow> Some (0, s)
      | e # r \<Rightarrow>
          if e = 101 \<or> e = 69 then
            (case r of
               [] \<Rightarrow> None
             | g # r' \<Rightarrow>
                 if g = 45 then map_option (\<lambda>(n, t). (- int n, t)) (json_exp_digits r')
                 else if g = 43 then map_option (\<lambda>(n, t). (int n, t)) (json_exp_digits r')
                 else map_option (\<lambda>(n, t). (int n, t)) (json_exp_digits r))
          else Some (0, s))"

definition scale10 :: "rat \<Rightarrow> int \<Rightarrow> rat" where
  "scale10 r e = (if 0 \<le> e then r * 10 ^ nat e else r / 10 ^ nat (- e))"

definition json_unsigned :: "jstring \<Rightarrow> (rat \<times> jstring) option" where
  "json_unsigned s =
     (case json_int_part s of
        None \<Rightarrow> None
      | Some (ds, r1) \<Rightarrow>
          (case json_frac_part r1 of
             None \<Rightarrow> None
           | Some (fs, r2) \<Rightarrow>
               (case json_exp_part r2 of
                  None \<Rightarrow> None
                | Some (e, r3) \<Rightarrow>
                    Some (scale10 (of_nat (digits_val (ds @ fs))) (e - int (length fs)), r3))))"

definition json_number :: "jstring \<Rightarrow> (rat \<times> jstring) option" where
  "json_number s =
     (case s of
        [] \<Rightarrow> None
      | c # r \<Rightarrow>
          if c = 45 then map_option (\<lambda>(v, t). (- v, t)) (json_unsigned r)
          else json_unsigned s)"

text \<open>
  A value, the elements of an array after its opening bracket, and the members of an
  object after its opening brace. The first argument bounds the number of nested
  calls; \<open>JSON_parse\<close> gives enough for the text at hand (see \<open>parse_value_fuel\<close>).
\<close>

fun parse_value :: "nat \<Rightarrow> jstring \<Rightarrow> (jsval \<times> jstring) option"
  and parse_elements :: "nat \<Rightarrow> jsval list \<Rightarrow> jstring \<Rightarrow> (jsval \<times> jstring) option"
  and parse_members :: "nat \<Rightarrow> (jstring \<times> jsval) list \<Rightarrow> jstring \<Rightarrow> (jsval \<times> jstring) option"
where
  "parse_value 0 s = None"
| "parse_value (Suc n) s =
     (case skip_ws s of
        [] \<Rightarrow> None
      | c # cs \<Rightarrow>
          if c = 123 then
            (case skip_ws cs of
               [] \<Rightarrow> None
             | d # r \<Rightarrow> if d = 125 then Some (JObj [], r) else parse_members n [] cs)
          else if c = 91 then
            (case skip_ws cs of
               [] \<Rightarrow> None
             | d # r \<Rightarrow> if d = 93 then Some (JArr [] [], r) else parse_elements n [] cs)
          else if c = 34 then map_option (\<lambda>(v, r). (JStr v, r)) (json_string cs)
          else if c = 45 \<or> is_digit c then
            map_option (\<lambda>(v, r). (JNum v, r)) (json_number (c # cs))
          else if startsWith (c # cs) (lit ''true'') then Some (JBool True, drop 4 (c # cs))
          else if startsWith (c # cs) (lit ''false'') then Some (JBool False, drop 5 (c # cs))
          else if startsWith (c # cs) (lit ''null'') then Some (JNull, drop 4 (c # cs))
          else None)"
| "parse_elements 0 acc s = None"
| "parse_elements (Suc n) acc s =
     (case parse_value n s of
        None \<Rightarrow> None
      | Some (v, r) \<Rightarrow>
          (case skip_ws r of
             [] \<Rightarrow> None
           | c # r' \<Rightarrow>
               if c = 44 then parse_elements n (acc @ [v]) r'
               else if c = 93 then Some (JArr (acc @ [v]) [], r')
               else None))"
| "parse_members 0 acc s = None"
| "parse_members (Suc n) acc s =
     (case skip_ws s of
        [] \<Rightarrow> None
      | q # r \<Rightarrow>
          if q = 34 then
            (case json_string r of
               None \<Rightarrow> None
             | Some (k, r1) \<Rightarrow>
                 (case skip_ws r1 of
                    [] \<Rightarrow> None
                  | c # r2 \<Rightarrow>
                      if c = 58 then
                        (case parse_value n r2 of
                           None \<Rightarrow> None
                         | Some (v, r3) \<Rightarrow>
                             (case skip_ws r3 of
                                [] \<Rightarrow> None
                              | d # r4 \<Rightarrow>
                                  if d = 44 then parse_members n (put acc k v) r4
                                  else if d = 125 then Some (JObj (put acc k v), r4)
                                  else None))
                      else None))
          else None)"

text \<open>\<open>JSON.parse(text)\<close>: one value, with nothing but white space after it.\<close>

definition JSON_parse :: "jstring \<Rightarrow> jsval option" where
  "JSON_parse s =
     (case parse_value (Suc (length s + length s)) s of
        None \<Rightarrow> None
      | Some (v, r) \<Rightarrow> if skip_ws r = [] then Some v else None)"

section \<open>The collaborators\<close>

text \<open>
  What the plugin calls and does not define: the network, the URL parser, the parsers
  for separated values of the data library, the plotting library, and the engine that
  runs a function made from text. Each is a parameter of the model.
\<close>

record response =
  status :: nat
  body :: "js_error + jstring"

text \<open>\<open>response.ok\<close>: the status is in the range 200 to 299.\<close>

definition ok :: "response \<Rightarrow> bool" where
  "ok r \<longleftrightarrow> 200 \<le> status r \<and> status r \<le> 299"

text \<open>
  How a call of a function made from text ends, seen from the caller that awaits it:
  it returns a value, or it throws (or rejects), or it never comes back. Of a thrown
  value the plugin only ever forms \<open>prefix + error.message\<close>; \<open>Threw (Some m)\<close>
  says that this appends \<open>m\<close> (for an \<open>Error\<close> object, its message), and
  \<open>Threw None\<close> that reading the message raises (the payload threw \<open>null\<close> or
  \<open>undefined\<close>).
\<close>

datatype settled =
    Returned jsval
  | Threw "jstring option"
  | Never

datatype node =
    TextNode jstring
  | Div jstring "node list"
  | Graphic jsval

datatype call =
    Fetch jsval
  | Invoke "jstring list" jstring "jsval list"
  | PlotDot jsval
  | PlotPlot jsval

text \<open>
  What a function does whose text the payload has rewritten (see \<open>inert\<close> below):
  the engine may refuse the text, or run it; then it leaves some content in the
  container, has made some calls, and settles.
\<close>

datatype spliced_run =
    Refused js_error
  | Ran "node list" "call list" settled

text \<open>
  The environment: \<open>fault_message\<close> is the message of an error the engine raises by
  itself; \<open>to_string\<close> is the conversion of a value to a string; \<open>fetch\<close> is the
  request, which is rejected or gives a response; \<open>URL_pathname\<close> is the path of
  \<open>new URL(x)\<close>, which raises on a text that is no URL; \<open>csvParse\<close> and
  \<open>tsvParse\<close> are the parsers of the data library with its type inference;
  \<open>Plot_dot\<close> and \<open>Plot_plot\<close> are the two functions of the plotting library
  the plugin calls; \<open>new_Function\<close> makes a function from a parameter list and a
  body, and raises when the body is no function body; \<open>invoke\<close> calls such a function
  with the arguments and awaits the result; \<open>spliced\<close> stands for the text of
  \<open>plotFunction\<close> when the payload has rewritten it.
\<close>

record env =
  fault_message :: "fault \<Rightarrow> jstring"
  to_string :: "jsval \<Rightarrow> jstring"
  fetch :: "jsval \<Rightarrow> js_error + response"
  URL_pathname :: "jsval \<Rightarrow> js_error + jstring"
  csvParse :: "jstring \<Rightarrow> js_error + jsval"
  tsvParse :: "jstring \<Rightarrow> js_error + jsval"
  Plot_dot :: "jsval \<Rightarrow> js_error + jsval"
  Plot_plot :: "jsval \<Rightarrow> js_error + jsval"
  new_Function :: "jstring list \<Rightarrow> jstring \<Rightarrow> js_error + nat"
  invoke :: "nat \<Rightarrow> jsval list \<Rightarrow> settled"
  spliced :: "jstring list \<Rightarrow> jstring \<Rightarrow> jsval \<Rightarrow> spliced_run"

text \<open>The library objects handed to the payload.\<close>

definition Plot :: jsval where "Plot = JHost 0"
definition d3 :: jsval where "d3 = JHost 1"
definition topojson :: jsval where "topojson = JHost 2"

definition raised :: "env \<Rightarrow> fault \<Rightarrow> js_error" where
  "raised env f = Error (fault_message env f)"

section \<open>Parsing the configuration\<close>

text \<open>
  The first step of the block processor: the direct path through \<open>JSON.parse\<close>, and
  when that raises, the tolerant path.
\<close>

definition placeholder_text :: jstring where
  "placeholder_text = lit ''\"code\":\"__CODE_PLACEHOLDER__\"''"

definition parse_config :: "env \<Rightarrow> jstring \<Rightarrow> js_error + jsval" where
  "parse_config env source =
     (case JSON_parse source of
        Some config \<Rightarrow> Inr config
      | None \<Rightarrow>
          (case regex_match source of
             Some codeMatch \<Rightarrow>
               (let withoutCode = replace_first (whole codeMatch) placeholder_text source in
                case JSON_parse withoutCode of
                  None \<Rightarrow>
                    Inl (Error (lit ''Failed to parse JSON: '' @
                                fault_message env (BadJson withoutCode)))
                | Some config \<Rightarrow>
                    (case set_prop config (lit ''code'') (JStr (actualCode (payload codeMatch))) of
                       Inl f \<Rightarrow> Inl (Error (lit ''Failed to parse JSON: '' @ fault_message env f))
                     | Inr config' \<Rightarrow> Inr config'))
           | None \<Rightarrow>
               Inl (Error (lit ''Failed to parse JSON and couldn'' @ [39] @
                           lit ''t find code section''))))"

section \<open>Resolving the data\<close>

text \<open>\<open>s.split(sep)\<close> for a separator of one code unit; the result is never empty.\<close>

fun split :: "nat \<Rightarrow> jstring \<Rightarrow> jstring list" where
  "split sep [] = [[]]"
| "split sep (c # cs) =
     (if c = sep then [] # split sep cs
      else (case split sep cs of
              [] \<Rightarrow> [[c]]
            | x # xs \<Rightarrow> (c # x) # xs))"

text \<open>
  \<open>toLowerCase\<close> on the path of a URL object. Such a path is ASCII (everything else is
  percent-encoded), and there only the capital letters change.
\<close>

definition toLowerCase :: "jstring \<Rightarrow> jstring" where
  "toLowerCase s = map (\<lambda>c. if 65 \<le> c \<and> c \<le> 90 then c + 32 else c) s"

fun includes_str :: "jstring \<Rightarrow> jstring \<Rightarrow> bool" where
  "includes_str [] p = (p = [])"
| "includes_str (c # cs) p = (startsWith (c # cs) p \<or> includes_str cs p)"

definition isArray :: "jsval \<Rightarrow> bool" where
  "isArray v = (case v of JArr xs ps \<Rightarrow> True | _ \<Rightarrow> False)"

text \<open>
  The four-way test on a parsed JSON body: a topology (it has \<open>objects\<close>), a feature
  or a feature collection, an array, or anything else, which is wrapped in an array.
\<close>

definition classify :: "jsval \<Rightarrow> fault + jsval" where
  "classify data =
     (case get_prop data (lit ''objects'') of
        Inl f \<Rightarrow> Inl f
      | Inr objects \<Rightarrow>
          if truthy objects then Inr data
          else
            (case get_prop data (lit ''type'') of
               Inl f \<Rightarrow> Inl f
             | Inr ty \<Rightarrow>
                 if ty = JStr (lit ''FeatureCollection'') \<or> ty = JStr (lit ''Feature'')
                 then Inr data
                 else if isArray data then Inr data
                 else Inr (JArr [data] [])))"

definition parse_json_body :: "env \<Rightarrow> jstring \<Rightarrow> js_error + jsval" where
  "parse_json_body env text =
     (case JSON_parse text of
        None \<Rightarrow> Inl (raised env (BadJson text))
      | Some data \<Rightarrow>
          (case classify data of
             Inl f \<Rightarrow> Inl (raised env f)
           | Inr d \<Rightarrow> Inr d))"

text \<open>The choice of the parser, by the extension of the path and then by the content.\<close>

definition parse_body :: "env \<Rightarrow> jstring \<Rightarrow> jstring \<Rightarrow> js_error + jsval" where
  "parse_body env ext text =
     (if ext = lit ''csv'' then csvParse env text
      else if ext = lit ''tsv'' then tsvParse env text
      else if ext = lit ''json'' \<or> ext = lit ''geojson'' \<or> ext = lit ''topojson''
        then parse_json_body env text
      else if startsWith (trim text) (lit ''{'') \<or> startsWith (trim text) (lit ''['')
        then parse_json_body env text
      else if includes_str text [9] then tsvParse env text
      else csvParse env text)"

text \<open>
  The body of the inner \<open>try\<close>: the request, the status check, the parse. The
  message that is logged at its end reads \<open>plotData.length\<close> unless \<open>plotData\<close>
  is an object, an array or null; that read raises when a parser has returned
  \<open>undefined\<close>.
\<close>

definition fetch_data :: "env \<Rightarrow> jsval \<Rightarrow> js_error + jsval" where
  "fetch_data env dataUrl =
     (case fetch env dataUrl of
        Inl e \<Rightarrow> Inl e
      | Inr response \<Rightarrow>
          if \<not> ok response then
            Inl (Error (lit ''HTTP error! status: '' @ show_nat (status response)))
          else
            (case URL_pathname env dataUrl of
               Inl e \<Rightarrow> Inl e
             | Inr pathname \<Rightarrow>
                 (let ext = toLowerCase (last (split 46 pathname)) in
                  case body response of
                    Inl e \<Rightarrow> Inl e
                  | Inr text \<Rightarrow>
                      (case parse_body env ext text of
                         Inl e \<Rightarrow> Inl e
                       | Inr plotData \<Rightarrow>
                           if plotData = JUndefined
                           then Inl (raised env (ReadOfNullish plotData (lit ''length'')))
                           else Inr plotData))))"

text \<open>
  The data of the plot and the calls made to get it: from the URL when \<open>dataUrl\<close>
  is truthy, else the inline data when that is truthy, else an error.
\<close>

definition resolve :: "env \<Rightarrow> jsval \<Rightarrow> (js_error + jsval) \<times> call list" where
  "resolve env config =
     (case get_prop config (lit ''dataUrl'') of
        Inl f \<Rightarrow> (Inl (raised env f), [])
      | Inr dataUrl \<Rightarrow>
          if truthy dataUrl then
            (case fetch_data env dataUrl of
               Inl e \<Rightarrow>
                 (Inl (Error (lit ''Failed to fetch data from URL: '' @ message e)),
                  [Fetch dataUrl])
             | Inr plotData \<Rightarrow> (Inr plotData, [Fetch dataUrl]))
          else
            (case get_prop config (lit ''data'') of
               Inl f \<Rightarrow> (Inl (raised env f), [])
             | Inr data \<Rightarrow>
                 if truthy data then (Inr data, [])
                 else (Inl (Error (lit ''Either data or dataUrl must be provided'')), [])))"

section \<open>Running the payload\<close>

text \<open>
  The plugin makes a function \<open>plotFunction\<close> from a text, and that text makes the
  function \<open>userFunction\<close> from a template literal into which the payload has been
  spliced. A payload without a backslash, a backquote, a carriage return and the pair
  \<open>${\<close> passes through the template literal unchanged, and the text of
  \<open>plotFunction\<close> then is the program as it is written in the source. Any other
  payload changes what the engine reads there; what happens then is left to the
  environment (\<open>spliced\<close>).
\<close>

definition inert :: "jstring \<Rightarrow> bool" where
  "inert code \<longleftrightarrow>
     92 \<notin> set code \<and> 96 \<notin> set code \<and> 13 \<notin> set code \<and> \<not> includes_str code (lit ''${'')"

text \<open>The payload as text: \<open>${config.code}\<close> converts a value that is not a string.\<close>

definition code_text :: "env \<Rightarrow> jsval \<Rightarrow> jstring" where
  "code_text env code = (case code of JStr s \<Rightarrow> s | _ \<Rightarrow> to_string env code)"

definition plotFunction_params :: "jstring list" where
  "plotFunction_params =
     [lit ''Plot'', lit ''d3'', lit ''data'', lit ''topojson'', lit ''container'']"

text \<open>The parameter list and the body of \<open>userFunction\<close>, and its arguments.\<close>

definition userFunction_params :: "jstring list" where
  "userFunction_params = [lit ''Plot'', lit ''d3'', lit ''data'', lit ''topojson'']"

definition userFunction_body :: "jstring \<Rightarrow> jstring" where
  "userFunction_body code =
     [10] @ replicate 36 32 @ lit ''return (async () => {'' @
     [10] @ replicate 40 32 @ lit ''try {'' @
     [10] @ replicate 44 32 @ code @
     [10] @ replicate 40 32 @ lit ''} catch (e) {'' @
     [10] @ replicate 44 32 @ lit ''throw e;'' @
     [10] @ replicate 40 32 @ lit ''}'' @
     [10] @ replicate 36 32 @ lit ''})();'' @
     [10] @ replicate 32 32"

definition userFunction_args :: "jsval \<Rightarrow> jsval list" where
  "userFunction_args data = [Plot, d3, data, topojson]"

text \<open>
  \<open>container.empty(); container.appendChild(plot)\<close> after the test of \<open>plot\<close>:
  the new content of the container, or the error.
\<close>

definition attach :: "env \<Rightarrow> jsval \<Rightarrow> js_error + node list" where
  "attach env plot =
     (if \<not> truthy plot then Inl (Error (lit ''Plot.plot() returned null''))
      else (case plot of
              JElement h \<Rightarrow> Inr [Graphic plot]
            | _ \<Rightarrow> Inl (raised env (NotANode plot))))"

text \<open>
  The asynchronous function inside \<open>plotFunction\<close>: the content it leaves in the
  container, the calls it makes, and how its promise settles. It first makes
  \<open>userFunction\<close>; when the engine refuses the body, the promise is rejected and
  \<open>userFunction\<close> is never called.
\<close>

definition plotFunction :: "env \<Rightarrow> jstring \<Rightarrow> jsval \<Rightarrow> node list \<times> call list \<times> settled" where
  "plotFunction env code data =
     (case new_Function env userFunction_params (userFunction_body code) of
        Inl e \<Rightarrow> ([], [], Threw (Some (message e)))
      | Inr userFunction \<Rightarrow>
          (let called = Invoke userFunction_params (userFunction_body code)
                          (userFunction_args data) in
           case invoke env userFunction (userFunction_args data) of
             Never \<Rightarrow> ([], [called], Never)
           | Threw m \<Rightarrow> ([], [called], Threw m)
           | Returned spec \<Rightarrow>
               if \<not> truthy spec then
                 ([], [called], Threw (Some (lit ''No plot specification returned'')))
               else
                 (case Plot_plot env spec of
                    Inl e \<Rightarrow> ([], [called, PlotPlot spec], Threw (Some (message e)))
                  | Inr plot \<Rightarrow>
                      (case attach env plot of
                         Inl e \<Rightarrow> ([], [called, PlotPlot spec], Threw (Some (message e)))
                       | Inr kids \<Rightarrow> (kids, [called, PlotPlot spec], Returned JUndefined)))))"

text \<open>
  The handler the processor puts on the promise: a rejection is written into the
  container. When reading the message of the rejection raises, nothing is written.
\<close>

definition on_rejection :: "node list \<Rightarrow> settled \<Rightarrow> node list" where
  "on_rejection kids how =
     (case how of
        Threw (Some m) \<Rightarrow> [TextNode (lit ''Error generating plot: '' @ m)]
      | _ \<Rightarrow> kids)"

section \<open>The block processor\<close>

text \<open>
  The processor gets the source text of the block and the element \<open>el\<close> to fill. The
  model returns the children of \<open>el\<close> once everything has settled, and the calls made.
  Console output is not modelled.
\<close>

record outcome =
  dom :: "node list"
  calls :: "call list"

definition container_class :: jstring where
  "container_class = lit ''observable-plot-container''"

text \<open>The outer \<open>catch\<close>: \<open>el.setText\<close> replaces the whole content of \<open>el\<close>.\<close>

definition show_error :: "jstring \<Rightarrow> call list \<Rightarrow> outcome" where
  "show_error m cs = \<lparr>dom = [TextNode (lit ''Error rendering plot: '' @ m)], calls = cs\<rparr>"

definition default_spec :: "jsval \<Rightarrow> jsval" where
  "default_spec mark =
     JObj [(lit ''width'', JNum 640), (lit ''height'', JNum 400), (lit ''margin'', JNum 40),
           (lit ''marks'', JArr [mark] [])]"

definition default_plot :: "env \<Rightarrow> jsval \<Rightarrow> (js_error + node list) \<times> call list" where
  "default_plot env plotData =
     (case Plot_dot env plotData of
        Inl e \<Rightarrow> (Inl e, [PlotDot plotData])
      | Inr mark \<Rightarrow>
          (case Plot_plot env (default_spec mark) of
             Inl e \<Rightarrow> (Inl e, [PlotDot plotData, PlotPlot (default_spec mark)])
           | Inr plot \<Rightarrow> (attach env plot, [PlotDot plotData, PlotPlot (default_spec mark)])))"

definition draw :: "env \<Rightarrow> jsval \<Rightarrow> jsval \<Rightarrow> node list \<Rightarrow> call list \<Rightarrow> outcome" where
  "draw env code plotData el cs =
     (if truthy code then
        (if inert (code_text env code) then
           (case plotFunction env (code_text env code) plotData of
              (kids, cs', how) \<Rightarrow>
                \<lparr>dom = el @ [Div container_class (on_rejection kids how)], calls = cs @ cs'\<rparr>)
         else
           (case spliced env plotFunction_params (code_text env code) plotData of
              Refused e \<Rightarrow> show_error (message e) cs
            | Ran kids cs' how \<Rightarrow>
                \<lparr>dom = el @ [Div container_class (on_rejection kids how)], calls = cs @ cs'\<rparr>))
      else
        (case default_plot env plotData of
           (Inl e, cs') \<Rightarrow> show_error (message e) (cs @ cs')
         | (Inr kids, cs') \<Rightarrow> \<lparr>dom = el @ [Div container_class kids], calls = cs @ cs'\<rparr>))"

definition render :: "env \<Rightarrow> jstring \<Rightarrow> node list \<Rightarrow> outcome" where
  "render env source el =
     (case parse_config env source of
        Inl e \<Rightarrow> show_error (message e) []
      | Inr config \<Rightarrow>
          (case resolve env config of
             (Inl e, cs) \<Rightarrow> show_error (message e) cs
           | (Inr plotData, cs) \<Rightarrow>
               (case get_prop config (lit ''code'') of
                  Inl f \<Rightarrow> show_error (fault_message env f) cs
                | Inr code \<Rightarrow> draw env code plotData el cs)))"

text \<open>The calls that run the payload.\<close>

definition is_invoke :: "call \<Rightarrow> bool" where
  "is_invoke c = (case c of Invoke ps b as \<Rightarrow> True | _ \<Rightarrow> False)"

section \<open>The processor of main.ts\<close>

text \<open>
  The file \<open>main.ts\<close> holds the processor without the detection of formats and
  without the topology library. It parses the configuration in the same way. The body
  of the response is read as JSON and taken as it is, and the payload runs
  synchronously: its errors reach the outer \<open>catch\<close>.
\<close>

definition fetch_data_main :: "env \<Rightarrow> jsval \<Rightarrow> js_error + jsval" where
  "fetch_data_main env dataUrl =
     (case fetch env dataUrl of
        Inl e \<Rightarrow> Inl e
      | Inr response \<Rightarrow>
          if \<not> ok response then
            Inl (Error (lit ''HTTP error! status: '' @ show_nat (status response)))
          else
            (case body response of
               Inl e \<Rightarrow> Inl e
             | Inr text \<Rightarrow>
                 (case JSON_parse text of
                    None \<Rightarrow> Inl (raised env (BadJson text))
                  | Some plotData \<Rightarrow>
                      if plotData = JNull
                      then Inl (raised env (ReadOfNullish plotData (lit ''length'')))
                      else Inr plotData)))"

definition resolve_main :: "env \<Rightarrow> jsval \<Rightarrow> (js_error + jsval) \<times> call list" where
  "resolve_main env config =
     (case get_prop config (lit ''dataUrl'') of
        Inl f \<Rightarrow> (Inl (raised env f), [])
      | Inr dataUrl \<Rightarrow>
          if truthy dataUrl then
            (case fetch_data_main env dataUrl of
               Inl e \<Rightarrow>
                 (Inl (Error (lit ''Failed to fetch data from URL: '' @ message e)),
                  [Fetch dataUrl])
             | Inr plotData \<Rightarrow> (Inr plotData, [Fetch dataUrl]))
          else
            (case get_prop config (lit ''data'') of
               Inl f \<Rightarrow> (Inl (raised env f), [])
             | Inr data \<Rightarrow>
                 if truthy data then (Inr data, [])
                 else (Inl (Error (lit ''Either data or dataUrl must be provided'')), [])))"

definition plotFunction_params_main :: "jstring list" where
  "plotFunction_params_main = [lit ''Plot'', lit ''d3'', lit ''data'', lit ''container'']"

definition userFunction_params_main :: "jstring list" where
  "userFunction_params_main = [lit ''Plot'', lit ''d3'', lit ''data'']"

definition userFunction_body_main :: "jstring \<Rightarrow> jstring" where
  "userFunction_body_main code =
     [10] @ replicate 32 32 @ lit ''try {'' @
     [10] @ replicate 36 32 @ code @
     [10] @ replicate 32 32 @ lit ''} catch (e) {'' @
     [10] @ replicate 36 32 @ lit ''throw e;'' @
     [10] @ replicate 32 32 @ lit ''}'' @
     [10] @ replicate 28 32"

definition userFunction_args_main :: "jsval \<Rightarrow> jsval list" where
  "userFunction_args_main data = [Plot, d3, data]"

definition plotFunction_main ::
  "env \<Rightarrow> jstring \<Rightarrow> jsval \<Rightarrow> node list \<times> call list \<times> settled" where
  "plotFunction_main env code data =
     (case new_Function env userFunction_params_main (userFunction_body_main code) of
        Inl e \<Rightarrow> ([], [], Threw (Some (message e)))
      | Inr userFunction \<Rightarrow>
          (let called = Invoke userFunction_params_main (userFunction_body_main code)
                          (userFunction_args_main data) in
           case invoke env userFunction (userFunction_args_main data) of
             Never \<Rightarrow> ([], [called], Never)
           | Threw m \<Rightarrow> ([], [called], Threw m)
           | Returned spec \<Rightarrow>
               if \<not> truthy spec then
                 ([], [called], Threw (Some (lit ''No plot specification returned'')))
               else
                 (case Plot_plot env spec of
                    Inl e \<Rightarrow> ([], [called, PlotPlot spec], Threw (Some (message e)))
                  | Inr plot \<Rightarrow>
                      (case attach env plot of
                         Inl e \<Rightarrow> ([], [called, PlotPlot spec], Threw (Some (message e)))
                       | Inr kids \<Rightarrow> (kids, [called, PlotPlot spec], Returned JUndefined)))))"

text \<open>
  What the processor leaves behind after the call of \<open>plotFunction\<close>: an error goes
  to the outer \<open>catch\<close>; when reading its message raises there, or when the call never
  comes back, the element keeps the container as it is.
\<close>

definition after_call :: "node list \<Rightarrow> call list \<Rightarrow> node list \<times> call list \<times> settled \<Rightarrow> outcome" where
  "after_call el cs r =
     (case r of
        (kids, cs', Threw (Some m)) \<Rightarrow> show_error m (cs @ cs')
      | (kids, cs', _) \<Rightarrow> \<lparr>dom = el @ [Div container_class kids], calls = cs @ cs'\<rparr>)"

definition draw_main :: "env \<Rightarrow> jsval \<Rightarrow> jsval \<Rightarrow> node list \<Rightarrow> call list \<Rightarrow> outcome" where
  "draw_main env code plotData el cs =
     (if truthy code then
        (if inert (code_text env code) then
           after_call el cs (plotFunction_main env (code_text env code) plotData)
         else
           (case spliced env plotFunction_params_main (code_text env code) plotData of
              Refused e \<Rightarrow> show_error (message e) cs
            | Ran kids cs' how \<Rightarrow> after_call el cs (kids, cs', how)))
      else
        (case default_plot env plotData of
           (Inl e, cs') \<Rightarrow> show_error (message e) (cs @ cs')
         | (Inr kids, cs') \<Rightarrow> \<lparr>dom = el @ [Div container_class kids], calls = cs @ cs'\<rparr>))"

definition render_main :: "env \<Rightarrow> jstring \<Rightarrow> node list \<Rightarrow> outcome" where
  "render_main env source el =
     (case parse_config env source of
        Inl e \<Rightarrow> show_error (message e) []
      | Inr config \<Rightarrow>
          (case resolve_main env config of
             (Inl e, cs) \<Rightarrow> show_error (message e) cs
           | (Inr plotData, cs) \<Rightarrow>
               (case get_prop config (lit ''code'') of
                  Inl f \<Rightarrow> show_error (fault_message env f) cs
                | Inr code \<Rightarrow> draw_main env code plotData el cs)))"

section \<open>The parser for separated values\<close>

text \<open>
  Modelled from the spec: the parser for separated values of the data library
  (\<open>d3.csvParse\<close> and \<open>d3.tsvParse\<close> with \<open>d3.autoType\<close>) is not among the
  source files. The spec says of it that a field that looks like a number becomes a
  number, a recognizable date becomes a date, and everything else stays a string, and
  that the rows become records. A field looks like a number here when it is a decimal
  numeral as JSON writes it.
\<close>

definition numeric_looking :: "jstring \<Rightarrow> rat option" where
  "numeric_looking s =
     (case json_number s of
        None \<Rightarrow> None
      | Some (v, r) \<Rightarrow> if r = [] then Some v else None)"

text \<open>
  Modelled from the spec: a recognizable date, taken here as four digits, two digits
  and two digits with hyphens between them.
\<close>

definition date_looking :: "jstring \<Rightarrow> bool" where
  "date_looking s =
     (case s of
        [y1, y2, y3, y4, h1, m1, m2, h2, d1, d2] \<Rightarrow>
          list_all is_digit [y1, y2, y3, y4, m1, m2, d1, d2] \<and> h1 = 45 \<and> h2 = 45
      | _ \<Rightarrow> False)"

text \<open>Modelled from the spec: the type inference for one field.\<close>

definition autoType :: "jstring \<Rightarrow> jsval" where
  "autoType s =
     (case numeric_looking s of
        Some v \<Rightarrow> JNum v
      | None \<Rightarrow> if date_looking s then JDate s else JStr s)"

text \<open>
  Modelled from the spec: the first line names the columns, and every further line
  gives one record, its fields under the names of the columns.
\<close>

definition dsv_record :: "jstring list \<Rightarrow> jstring list \<Rightarrow> jsval" where
  "dsv_record columns cells =
     JObj (foldl (\<lambda>ps (k, v). put ps k v) [] (zip columns (map autoType cells)))"

definition dsvParse :: "nat \<Rightarrow> jstring \<Rightarrow> jsval" where
  "dsvParse delimiter s =
     (case split 10 s of
        [] \<Rightarrow> JArr [] []
      | header # rows \<Rightarrow>
          JArr (map (\<lambda>row. dsv_record (split delimiter header) (split delimiter row)) rows) [])"

section \<open>Sample inputs\<close>

text \<open>
  An environment without a network, whose plotting library always returns a mark and a
  graphic, and whose payloads return nothing.
\<close>

definition quiet_env :: env where
  "quiet_env =
     \<lparr>fault_message = (\<lambda>f. lit ''fault''),
      to_string = (\<lambda>v. lit ''value''),
      fetch = (\<lambda>u. Inl (Error (lit ''Failed to fetch''))),
      URL_pathname = (\<lambda>u. Inl (Error (lit ''Invalid URL''))),
      csvParse = (\<lambda>t. Inr (dsvParse 44 t)),
      tsvParse = (\<lambda>t. Inr (dsvParse 9 t)),
      Plot_dot = (\<lambda>d. Inr (JHost 3)),
      Plot_plot = (\<lambda>s. Inr (JElement 0)),
      new_Function = (\<lambda>ps b. Inr 0),
      invoke = (\<lambda>f as. Returned JUndefined),
      spliced = (\<lambda>ps c d. Refused (Error (lit ''Unexpected token'')))\<rparr>"

text \<open>
  Two blocks whose code payload has a quoted string and a line feed in it, both
  unescaped. The payload of the second one also has a backslash, in \<open>\d\<close>.
\<close>

definition plain_block :: jstring where
  "plain_block = lit ''{\"data\":[],\"code\":\"x = \"a\";\<newline>\"}''"

definition regex_block :: jstring where
  "regex_block = lit ''{\"code\":\"\"'' @ [92] @ lit ''d\"\<newline>\"}''"

text \<open>
  A block without any field, a block with a URL and inline data, a block with three
  inline records and no code, and a block whose payload returns null.
\<close>

definition empty_block :: jstring where
  "empty_block = lit ''{}''"

definition url_block :: jstring where
  "url_block = lit ''{\"dataUrl\":\"u\",\"data\":[]}''"

definition records_block :: jstring where
  "records_block = lit ''{\"data\":[{\"x\":1},{\"x\":2},{\"x\":3}]}''"

definition null_block :: jstring where
  "null_block = lit ''{\"data\":[],\"code\":\"return null\"}''"


section \<open>Facts about the parts\<close>

lemmas text_eval = lit_def startsWith_def js_space_def

lemmas regex_eval = match_here_def code_key_def lookahead_delim_def

lemmas json_eval = JSON_parse_def skip_ws_def json_ws_def is_digit_def
  json_number_def json_unsigned_def json_int_part_def json_frac_part_def json_exp_part_def
  json_exp_digits_def digits_val_def scale10_def cons_fst_def escape_unit_def hex4_def
  hex_val_def

text \<open>
  The bound of the JSON parser. Every successful step of the parser leaves a text that
  is no longer than the one it started from, and the bound that \<open>JSON_parse\<close> gives
  is never exhausted.
\<close>

lemma skip_ws_length: "length (skip_ws s) \<le> length s"
  by (simp add: skip_ws_def length_dropWhile_le)

lemma skip_ws_Cons: "skip_ws s = c # r \<Longrightarrow> length r < length s"
  using skip_ws_length [of s] by simp

lemma json_string_length: "json_string s = Some (k, r) \<Longrightarrow> length r < length s"
proof (induction s arbitrary: k r rule: json_string.induct)
  case 1
  then show ?case by simp
next
  case (2 c cs)
  then show ?case
    by (auto simp: cons_fst_def split: if_splits list.splits option.splits) fastforce+
qed

lemma json_exp_digits_length: "json_exp_digits s = Some (n, r) \<Longrightarrow> length r \<le> length s"
  by (auto simp: json_exp_digits_def length_dropWhile_le split: if_splits)

lemma json_exp_part_length: "json_exp_part s = Some (e, r) \<Longrightarrow> length r \<le> length s"
  by (auto simp: json_exp_part_def split: list.splits if_splits dest!: json_exp_digits_length)

lemma json_frac_part_length: "json_frac_part s = Some (f, r) \<Longrightarrow> length r \<le> length s"
  by (auto simp: json_frac_part_def split: list.splits if_splits
      intro: le_SucI length_dropWhile_le)

lemma json_int_part_length: "json_int_part s = Some (d, r) \<Longrightarrow> length r < length s"
proof -
  assume a: "json_int_part s = Some (d, r)"
  then obtain c cs where s: "s = c # cs" by (cases s) (auto simp: json_int_part_def)
  show ?thesis
  proof (cases "c = 48")
    case True
    with a s show ?thesis by (simp add: json_int_part_def)
  next
    case False
    with a s have "is_digit c" and "r = dropWhile is_digit (c # cs)"
      by (auto simp: json_int_part_def split: if_splits)
    then have "r = dropWhile is_digit cs" by simp
    then show ?thesis using s length_dropWhile_le [of is_digit cs] by simp
  qed
qed

lemma json_unsigned_length: "json_unsigned s = Some (v, r) \<Longrightarrow> length r < length s"
  by (auto simp: json_unsigned_def split: option.splits
      dest!: json_int_part_length json_frac_part_length json_exp_part_length)

lemma json_number_length: "json_number s = Some (v, r) \<Longrightarrow> length r < length s"
  by (auto simp: json_number_def split: list.splits if_splits dest!: json_unsigned_length)


lemma parse_length_all:
  "(\<forall>s v r. parse_value n s = Some (v, r) \<longrightarrow> length r \<le> length s) \<and>
   (\<forall>acc s v r. parse_elements n acc s = Some (v, r) \<longrightarrow> length r \<le> length s) \<and>
   (\<forall>ps s v r. parse_members n ps s = Some (v, r) \<longrightarrow> length r \<le> length s)"
proof (induction n)
  case 0
  then show ?case by simp
next
  case (Suc n)
  then have V: "\<And>s v r. parse_value n s = Some (v, r) \<Longrightarrow> length r \<le> length s"
    and E: "\<And>acc s v r. parse_elements n acc s = Some (v, r) \<Longrightarrow> length r \<le> length s"
    and M: "\<And>ps s v r. parse_members n ps s = Some (v, r) \<Longrightarrow> length r \<le> length s"
    by blast+
  have v: "length r \<le> length s" if h: "parse_value (Suc n) s = Some (v, r)" for s v r
  proof (cases "skip_ws s")
    case Nil
    with h show ?thesis by simp
  next
    case (Cons c cs)
    have cs: "length cs < length s" using Cons by (rule skip_ws_Cons)
    consider (obj) "c = 123" | (arr) "c \<noteq> 123" "c = 91" | (str) "c \<noteq> 123" "c \<noteq> 91" "c = 34"
      | (num) "c \<noteq> 123" "c \<noteq> 91" "c \<noteq> 34" "c = 45 \<or> is_digit c"
      | (word) "c \<noteq> 123" "c \<noteq> 91" "c \<noteq> 34" "\<not> (c = 45 \<or> is_digit c)"
      by blast
    then show ?thesis
    proof cases
      case obj
      show ?thesis
      proof (cases "skip_ws cs")
        case Nil
        with h Cons obj show ?thesis by simp
      next
        case (Cons d r')
        have "length r' < length cs" using Cons by (rule skip_ws_Cons)
        moreover have "d \<noteq> 125 \<Longrightarrow> length r \<le> length cs"
          using h \<open>skip_ws s = c # cs\<close> obj Cons M by simp
        ultimately show ?thesis
          using h \<open>skip_ws s = c # cs\<close> obj Cons cs by (cases "d = 125") auto
      qed
    next
      case arr
      show ?thesis
      proof (cases "skip_ws cs")
        case Nil
        with h Cons arr show ?thesis by simp
      next
        case (Cons d r')
        have "length r' < length cs" using Cons by (rule skip_ws_Cons)
        moreover have "d \<noteq> 93 \<Longrightarrow> length r \<le> length cs"
          using h \<open>skip_ws s = c # cs\<close> arr Cons E by simp
        ultimately show ?thesis
          using h \<open>skip_ws s = c # cs\<close> arr Cons cs by (cases "d = 93") auto
      qed
    next
      case str
      with h Cons obtain k where "json_string cs = Some (k, r)" by auto
      then show ?thesis using json_string_length cs by fastforce
    next
      case num
      with h Cons obtain x where "json_number (c # cs) = Some (x, r)" by auto
      then have "length r < length (c # cs)" by (rule json_number_length)
      then show ?thesis using cs by simp
    next
      case word
      with h Cons have "r = drop 4 (c # cs) \<or> r = drop 5 (c # cs)"
        by (auto split: if_splits)
      then show ?thesis using cs by auto
    qed
  qed
  have e: "length r \<le> length s" if h: "parse_elements (Suc n) acc s = Some (v, r)" for acc s v r
  proof -
    from h obtain x r1 where a: "parse_value n s = Some (x, r1)"
      by (cases "parse_value n s") auto
    then have l1: "length r1 \<le> length s" by (rule V)
    from h a obtain c r2 where b: "skip_ws r1 = c # r2"
      by (cases "skip_ws r1") auto
    then have l2: "length r2 < length r1" by (rule skip_ws_Cons)
    from h a b have "(c = 44 \<and> parse_elements n (acc @ [x]) r2 = Some (v, r)) \<or> (c = 93 \<and> r = r2)"
      by (auto split: if_splits)
    then show ?thesis using E l1 l2 by fastforce
  qed
  have m: "length r \<le> length s" if h: "parse_members (Suc n) ps s = Some (v, r)" for ps s v r
  proof -
    from h obtain q r0 where a: "skip_ws s = q # r0" by (cases "skip_ws s") auto
    then have l0: "length r0 < length s" by (rule skip_ws_Cons)
    from h a have q: "q = 34" by (auto split: if_splits)
    from h a q obtain k r1 where b: "json_string r0 = Some (k, r1)"
      by (cases "json_string r0") auto
    then have l1: "length r1 < length r0" by (rule json_string_length)
    from h a q b obtain c r2 where c: "skip_ws r1 = c # r2" by (cases "skip_ws r1") auto
    then have l2: "length r2 < length r1" by (rule skip_ws_Cons)
    from h a q b c have c58: "c = 58" by (auto split: if_splits)
    from h a q b c c58 obtain x r3 where d: "parse_value n r2 = Some (x, r3)"
      by (cases "parse_value n r2") auto
    then have l3: "length r3 \<le> length r2" by (rule V)
    from h a q b c c58 d obtain d' r4 where e: "skip_ws r3 = d' # r4"
      by (cases "skip_ws r3") auto
    then have l4: "length r4 < length r3" by (rule skip_ws_Cons)
    from h a q b c c58 d e
    have "(d' = 44 \<and> parse_members n (put ps k x) r4 = Some (v, r)) \<or> (d' = 125 \<and> r = r4)"
      by (auto split: if_splits)
    then show ?thesis using M l0 l1 l2 l3 l4 by fastforce
  qed
  show ?case using v e m by blast
qed

lemma parse_value_length: "parse_value n s = Some (v, r) \<Longrightarrow> length r \<le> length s"
  using parse_length_all by blast


text \<open>One unfolding of each of the three functions, for two bounds on the inner calls.\<close>

lemma parse_value_step:
  assumes "\<And>cs. length cs < length s \<Longrightarrow> parse_members a [] cs = parse_members b [] cs"
    and "\<And>cs. length cs < length s \<Longrightarrow> parse_elements a [] cs = parse_elements b [] cs"
  shows "parse_value (Suc a) s = parse_value (Suc b) s"
proof (cases "skip_ws s")
  case Nil
  then show ?thesis by simp
next
  case (Cons c cs)
  have "length cs < length s" using Cons by (rule skip_ws_Cons)
  then have "parse_members a [] cs = parse_members b [] cs"
    and "parse_elements a [] cs = parse_elements b [] cs"
    using assms by blast+
  with Cons show ?thesis by (simp split: list.splits)
qed

lemma parse_elements_step:
  assumes "parse_value a s = parse_value b s"
    and "\<And>x r1 c r2. parse_value b s = Some (x, r1) \<Longrightarrow> skip_ws r1 = c # r2 \<Longrightarrow>
           parse_elements a (acc @ [x]) r2 = parse_elements b (acc @ [x]) r2"
  shows "parse_elements (Suc a) acc s = parse_elements (Suc b) acc s"
proof (cases "parse_value b s")
  case None
  with assms(1) show ?thesis by simp
next
  case (Some p)
  obtain x r1 where p: "p = (x, r1)" by (cases p)
  show ?thesis
  proof (cases "skip_ws r1")
    case Nil
    with assms(1) Some p show ?thesis by simp
  next
    case (Cons c r2)
    have "parse_elements a (acc @ [x]) r2 = parse_elements b (acc @ [x]) r2"
      using assms(2) Some p Cons by blast
    with assms(1) Some p Cons show ?thesis by simp
  qed
qed

lemma parse_members_step:
  assumes "\<And>r2. length r2 < length s \<Longrightarrow> parse_value a r2 = parse_value b r2"
    and "\<And>k x r2 r3 d r4. length r2 < length s \<Longrightarrow> parse_value b r2 = Some (x, r3) \<Longrightarrow>
           skip_ws r3 = d # r4 \<Longrightarrow>
           parse_members a (put ps k x) r4 = parse_members b (put ps k x) r4"
  shows "parse_members (Suc a) ps s = parse_members (Suc b) ps s"
proof (cases "skip_ws s")
  case Nil
  then show ?thesis by simp
next
  case s0: (Cons q r0)
  have l0: "length r0 < length s" using s0 by (rule skip_ws_Cons)
  show ?thesis
  proof (cases "json_string r0")
    case None
    with s0 show ?thesis by simp
  next
    case (Some p)
    obtain k r1 where p: "p = (k, r1)" by (cases p)
    have l1: "length r1 < length r0" using Some p json_string_length by blast
    show ?thesis
    proof (cases "skip_ws r1")
      case Nil
      with s0 Some p show ?thesis by simp
    next
      case s1: (Cons c r2)
      have l2: "length r2 < length s" using skip_ws_Cons [OF s1] l0 l1 by simp
      have pv: "parse_value a r2 = parse_value b r2" using assms(1) l2 by blast
      show ?thesis
      proof (cases "parse_value b r2")
        case None
        with pv s0 Some p s1 show ?thesis by simp
      next
        case v: (Some w)
        obtain x r3 where w: "w = (x, r3)" by (cases w)
        show ?thesis
        proof (cases "skip_ws r3")
          case Nil
          with pv s0 Some p s1 v w show ?thesis by simp
        next
          case s3: (Cons d r4)
          have "parse_members a (put ps k x) r4 = parse_members b (put ps k x) r4"
            using assms(2) l2 v w s3 by blast
          with pv s0 Some p s1 v w s3 show ?thesis by simp
        qed
      qed
    qed
  qed
qed

lemma fuel_step_all:
  "(\<forall>s. 2 * length s < n \<longrightarrow> parse_value (Suc n) s = parse_value n s) \<and>
   (\<forall>acc s. 2 * length s + 1 < n \<longrightarrow> parse_elements (Suc n) acc s = parse_elements n acc s) \<and>
   (\<forall>ps s. 2 * length s + 1 < n \<longrightarrow> parse_members (Suc n) ps s = parse_members n ps s)"
proof (induction n)
  case 0
  then show ?case by simp
next
  case (Suc n)
  then have V: "\<And>s. 2 * length s < n \<Longrightarrow> parse_value (Suc n) s = parse_value n s"
    and E: "\<And>acc s. 2 * length s + 1 < n \<Longrightarrow>
              parse_elements (Suc n) acc s = parse_elements n acc s"
    and M: "\<And>ps s. 2 * length s + 1 < n \<Longrightarrow>
              parse_members (Suc n) ps s = parse_members n ps s"
    by blast+
  have v: "parse_value (Suc (Suc n)) s = parse_value (Suc n) s" if h: "2 * length s < Suc n" for s
  proof (rule parse_value_step)
    fix cs :: jstring assume "length cs < length s"
    with h have "2 * length cs + 1 < n" by simp
    then show "parse_members (Suc n) [] cs = parse_members n [] cs"
      and "parse_elements (Suc n) [] cs = parse_elements n [] cs"
      using M E by blast+
  qed
  have e: "parse_elements (Suc (Suc n)) acc s = parse_elements (Suc n) acc s"
    if h: "2 * length s + 1 < Suc n" for acc s
  proof (rule parse_elements_step)
    show "parse_value (Suc n) s = parse_value n s" using V h by simp
  next
    fix x r1 c r2
    assume a: "parse_value n s = Some (x, r1)" and b: "skip_ws r1 = c # r2"
    have "length r1 \<le> length s" using a by (rule parse_value_length)
    moreover have "length r2 < length r1" using b by (rule skip_ws_Cons)
    ultimately have "2 * length r2 + 1 < n" using h by simp
    then show "parse_elements (Suc n) (acc @ [x]) r2 = parse_elements n (acc @ [x]) r2"
      using E by blast
  qed
  have m: "parse_members (Suc (Suc n)) ps s = parse_members (Suc n) ps s"
    if h: "2 * length s + 1 < Suc n" for ps s
  proof (rule parse_members_step)
    fix r2 :: jstring assume "length r2 < length s"
    with h show "parse_value (Suc n) r2 = parse_value n r2" using V by simp
  next
    fix k x r2 r3 d r4
    assume l: "length r2 < length s" and a: "parse_value n r2 = Some (x, r3)"
      and b: "skip_ws r3 = d # r4"
    have "length r3 \<le> length r2" using a by (rule parse_value_length)
    moreover have "length r4 < length r3" using b by (rule skip_ws_Cons)
    ultimately have "2 * length r4 + 1 < n" using h l by simp
    then show "parse_members (Suc n) (put ps k x) r4 = parse_members n (put ps k x) r4"
      using M by blast
  qed
  show ?case using v e m by blast
qed

text \<open>Fuel beyond twice the length of the text changes nothing.\<close>

lemma parse_value_fuel:
  assumes "2 * length s < n"
  shows "parse_value n s = parse_value (Suc (length s + length s)) s"
proof -
  have "parse_value (Suc (length s + length s) + k) s =
        parse_value (Suc (length s + length s)) s" for k
  proof (induction k)
    case 0
    then show ?case by simp
  next
    case (Suc k)
    have "2 * length s < Suc (length s + length s) + k" by simp
    then have "parse_value (Suc (Suc (length s + length s) + k)) s =
               parse_value (Suc (length s + length s) + k) s"
      using fuel_step_all by blast
    with Suc show ?case by simp
  qed
  from this [of "n - Suc (length s + length s)"] assms show ?thesis by simp
qed


text \<open>A parse that succeeds within some bound succeeds within every larger one.\<close>

lemma parse_value_unfold:
  "parse_value (Suc a) s = parse_value (Suc b) s \<or>
   (\<exists>cs. parse_value (Suc a) s = parse_members a [] cs \<and>
         parse_value (Suc b) s = parse_members b [] cs) \<or>
   (\<exists>cs. parse_value (Suc a) s = parse_elements a [] cs \<and>
         parse_value (Suc b) s = parse_elements b [] cs)"
proof (cases "skip_ws s")
  case Nil
  then show ?thesis by simp
next
  case (Cons c cs)
  show ?thesis
  proof (cases "skip_ws cs")
    case Nil
    with Cons show ?thesis by simp
  next
    case c2: (Cons d r)
    show ?thesis
    proof (cases "c = 123")
      case True
      with Cons c2 show ?thesis by (cases "d = 125") auto
    next
      case False
      show ?thesis
      proof (cases "c = 91")
        case True
        with Cons c2 show ?thesis by (cases "d = 93") auto
      next
        case c91: False
        have "parse_value (Suc a) s = parse_value (Suc b) s"
          using Cons False c91 by simp
        then show ?thesis by blast
      qed
    qed
  qed
qed

lemma parse_value_grow:
  assumes "\<And>cs x. parse_members a [] cs = Some x \<Longrightarrow> parse_members b [] cs = Some x"
    and "\<And>cs x. parse_elements a [] cs = Some x \<Longrightarrow> parse_elements b [] cs = Some x"
    and "parse_value (Suc a) s = Some x"
  shows "parse_value (Suc b) s = Some x"
  using parse_value_unfold [of a s b] assms by metis

lemma parse_elements_grow:
  assumes "\<And>t y. parse_value a t = Some y \<Longrightarrow> parse_value b t = Some y"
    and "\<And>acc' t y. parse_elements a acc' t = Some y \<Longrightarrow> parse_elements b acc' t = Some y"
    and "parse_elements (Suc a) acc s = Some x"
  shows "parse_elements (Suc b) acc s = Some x"
proof -
  from assms(3) obtain y r1 where p: "parse_value a s = Some (y, r1)"
    by (cases "parse_value a s") auto
  then have p': "parse_value b s = Some (y, r1)" by (rule assms(1))
  from assms(3) p obtain c r2 where w: "skip_ws r1 = c # r2" by (cases "skip_ws r1") auto
  show ?thesis
  proof (cases "c = 44")
    case True
    with assms(3) p w have "parse_elements a (acc @ [y]) r2 = Some x" by simp
    then have "parse_elements b (acc @ [y]) r2 = Some x" by (rule assms(2))
    with p' w True show ?thesis by simp
  next
    case False
    with assms(3) p p' w show ?thesis by (auto split: if_splits)
  qed
qed

lemma parse_members_grow:
  assumes "\<And>t y. parse_value a t = Some y \<Longrightarrow> parse_value b t = Some y"
    and "\<And>ps' t y. parse_members a ps' t = Some y \<Longrightarrow> parse_members b ps' t = Some y"
    and h: "parse_members (Suc a) ps s = Some x"
  shows "parse_members (Suc b) ps s = Some x"
proof -
  from h obtain q r0 where s0: "skip_ws s = q # r0" by (cases "skip_ws s") auto
  from h s0 have q: "q = 34" by (auto split: if_splits)
  from h s0 q obtain k r1 where b: "json_string r0 = Some (k, r1)"
    by (cases "json_string r0") auto
  from h s0 q b obtain c r2 where s1: "skip_ws r1 = c # r2" by (cases "skip_ws r1") auto
  from h s0 q b s1 have c58: "c = 58" by (auto split: if_splits)
  from h s0 q b s1 c58 obtain y r3 where d: "parse_value a r2 = Some (y, r3)"
    by (cases "parse_value a r2") auto
  then have d': "parse_value b r2 = Some (y, r3)" by (rule assms(1))
  from h s0 q b s1 c58 d obtain d0 r4 where s3: "skip_ws r3 = d0 # r4"
    by (cases "skip_ws r3") auto
  show ?thesis
  proof (cases "d0 = 44")
    case True
    with h s0 q b s1 c58 d s3 have "parse_members a (put ps k y) r4 = Some x" by simp
    then have "parse_members b (put ps k y) r4 = Some x" by (rule assms(2))
    with s0 q b s1 c58 d' s3 True show ?thesis by simp
  next
    case False
    with h s0 q b s1 c58 d d' s3 show ?thesis by (auto split: if_splits)
  qed
qed

lemma parse_mono_all:
  "(\<forall>s x. parse_value n s = Some x \<longrightarrow> parse_value (Suc n) s = Some x) \<and>
   (\<forall>acc s x. parse_elements n acc s = Some x \<longrightarrow> parse_elements (Suc n) acc s = Some x) \<and>
   (\<forall>ps s x. parse_members n ps s = Some x \<longrightarrow> parse_members (Suc n) ps s = Some x)"
proof (induction n)
  case 0
  then show ?case by simp
next
  case (Suc n)
  then have V: "\<And>s x. parse_value n s = Some x \<Longrightarrow> parse_value (Suc n) s = Some x"
    and E: "\<And>acc s x. parse_elements n acc s = Some x \<Longrightarrow>
              parse_elements (Suc n) acc s = Some x"
    and M: "\<And>ps s x. parse_members n ps s = Some x \<Longrightarrow>
              parse_members (Suc n) ps s = Some x"
    by blast+
  have "parse_value (Suc (Suc n)) s = Some x" if "parse_value (Suc n) s = Some x" for s x
    using M E that by (rule parse_value_grow)
  moreover have "parse_elements (Suc (Suc n)) acc s = Some x"
    if "parse_elements (Suc n) acc s = Some x" for acc s x
    using V E that by (rule parse_elements_grow)
  moreover have "parse_members (Suc (Suc n)) ps s = Some x"
    if "parse_members (Suc n) ps s = Some x" for ps s x
    using V M that by (rule parse_members_grow)
  ultimately show ?case by blast
qed

lemma parse_value_more_fuel:
  assumes "parse_value n s = Some x"
  shows "parse_value (n + k) s = Some x"
proof (induction k)
  case 0
  show ?case using assms by (simp only: add_0_right)
next
  case (Suc k)
  then have "parse_value (Suc (n + k)) s = Some x" using parse_mono_all by blast
  then show ?case by (simp only: add_Suc_right)
qed

text \<open>
  \<open>JSON_parse\<close> does not depend on its bound: it accepts a text exactly when some
  number of nested calls suffices to read one value with only white space after it.
\<close>

lemma JSON_parse_iff:
  "JSON_parse s = Some v \<longleftrightarrow> (\<exists>n r. parse_value n s = Some (v, r) \<and> skip_ws r = [])"
proof
  define n where "n = Suc (length s + length s)"
  assume "JSON_parse s = Some v"
  then have "(case parse_value n s of None \<Rightarrow> None
              | Some (v, r) \<Rightarrow> if skip_ws r = [] then Some v else None) = Some v"
    unfolding JSON_parse_def n_def .
  then obtain r where "parse_value n s = Some (v, r)" and "skip_ws r = []"
    by (cases "parse_value n s") (auto split: if_splits)
  then show "\<exists>n r. parse_value n s = Some (v, r) \<and> skip_ws r = []"
    by blast
next
  define m where "m = Suc (length s + length s)"
  assume "\<exists>n r. parse_value n s = Some (v, r) \<and> skip_ws r = []"
  then obtain n r where p: "parse_value n s = Some (v, r)" and w: "skip_ws r = []" by blast
  from p have "parse_value (n + m) s = Some (v, r)"
    by (rule parse_value_more_fuel)
  moreover have "2 * length s < n + m" by (simp add: m_def)
  then have "parse_value (n + m) s = parse_value m s"
    unfolding m_def by (rule parse_value_fuel)
  ultimately have "parse_value m s = Some (v, r)" by (simp only:)
  then have "(case parse_value m s of None \<Rightarrow> None
              | Some (v, r) \<Rightarrow> if skip_ws r = [] then Some v else None) = Some v"
    using w by (simp only: option.case prod.case refl if_True)
  then show "JSON_parse s = Some v"
    unfolding JSON_parse_def m_def .
qed

lemma lookup_put: "lookup (put ps k v) k = v"
  by (induction ps) (auto simp: lookup_def)

lemma get_set_prop: "set_prop c k x = Inr c' \<Longrightarrow> get_prop c' k = Inr x"
  by (cases c) (auto simp: lookup_put)

lemma delete_all_absent: "a \<notin> set (delete_all a s)"
  by (simp add: delete_all_def)


lemma actualCode_no_backslash: "92 \<notin> set (actualCode g)"
  by (simp add: actualCode_def delete_all_absent)


text \<open>A configuration that comes out of the tolerant path was built in its three steps.\<close>

lemma parse_config_tolerant:
  assumes "JSON_parse source = None" and "parse_config env source = Inr config"
  shows "\<exists>m cfg. regex_match source = Some m \<and>
           JSON_parse (replace_first (whole m) placeholder_text source) = Some cfg \<and>
           set_prop cfg (lit ''code'') (JStr (actualCode (payload m))) = Inr config"
  using assms
  by (auto simp: parse_config_def Let_def split: option.splits sum.splits)

lemma plain_block_invalid: "JSON_parse plain_block = None"
  by (simp add: plain_block_def json_eval text_eval)

lemma plain_block_match:
  "regex_match plain_block =
     Some \<lparr>whole = lit ''\"code\":\"x = \"a\";\<newline>\"'', payload = lit ''x = \"a\";\<newline>''\<rparr>"
  by (simp add: plain_block_def regex_eval text_eval)

lemma plain_block_parse:
  "parse_config env plain_block =
     Inr (JObj [(lit ''data'', JArr [] []), (lit ''code'', JStr (lit ''x = \"a\";\<newline>''))])"
  unfolding parse_config_def plain_block_invalid plain_block_match
  by (simp add: placeholder_text_def actualCode_def delete_all_def plain_block_def
      json_eval text_eval)

lemma regex_block_invalid: "JSON_parse regex_block = None"
  by (simp add: regex_block_def json_eval text_eval)

lemma regex_block_match:
  "regex_match regex_block =
     Some \<lparr>whole = lit ''\"code\":\"\"'' @ [92] @ lit ''d\"\<newline>\"'',
           payload = lit ''\"'' @ [92] @ lit ''d\"\<newline>''\<rparr>"
  by (simp add: regex_block_def regex_eval text_eval)

lemma regex_block_parse:
  "parse_config env regex_block = Inr (JObj [(lit ''code'', JStr (lit ''\"d\"\<newline>''))])"
  unfolding parse_config_def regex_block_invalid regex_block_match
  by (simp add: placeholder_text_def actualCode_def delete_all_def regex_block_def
      json_eval text_eval)









lemma split_nonempty: "split sep s \<noteq> []"
  by (induction s) (auto split: list.splits)

lemma split_no_sep: "sep \<notin> set s \<Longrightarrow> split sep s = [s]"
  by (induction s) auto

lemma split_append: "split sep (b @ sep # x) = split sep b @ split sep x"
proof (induction b)
  case Nil
  then show ?case by simp
next
  case (Cons c b)
  obtain y ys where "split sep b = y # ys"
    using split_nonempty [of sep b] by (cases "split sep b") auto
  with Cons show ?case by simp
qed

lemma last_split: "sep \<notin> set x \<Longrightarrow> last (split sep (b @ sep # x)) = x"
  by (simp add: split_append split_nonempty split_no_sep)

lemma ext_csv: "toLowerCase (last (split 46 (stem @ lit ''.csv''))) = lit ''csv''"
proof -
  have "stem @ lit ''.csv'' = stem @ 46 # lit ''csv''" by (simp add: lit_def)
  moreover have "46 \<notin> set (lit ''csv'')" by (simp add: lit_def)
  ultimately have "last (split 46 (stem @ lit ''.csv'')) = lit ''csv''"
    using last_split by metis
  then show ?thesis by (simp add: toLowerCase_def lit_def)
qed

lemma dsvParse_defined: "dsvParse d s \<noteq> JUndefined"
  by (simp add: dsvParse_def split: list.splits)

lemma show_nat_404: "show_nat 404 = lit ''404''"
  by (simp add: show_nat.simps lit_def)

lemma empty_block_parse: "parse_config env empty_block = Inr (JObj [])"
  by (simp add: parse_config_def empty_block_def json_eval text_eval)

lemma url_block_parse:
  "parse_config env url_block = Inr (JObj [(lit ''dataUrl'', JStr (lit ''u'')), (lit ''data'', JArr [] [])])"
  by (simp add: parse_config_def url_block_def json_eval text_eval)

lemma records_block_parse:
  "parse_config env records_block =
     Inr (JObj [(lit ''data'', JArr [JObj [(lit ''x'', JNum 1)], JObj [(lit ''x'', JNum 2)],
                                    JObj [(lit ''x'', JNum 3)]] [])])"
  by (simp add: parse_config_def records_block_def json_eval text_eval)

lemma null_block_parse:
  "parse_config env null_block =
     Inr (JObj [(lit ''data'', JArr [] []), (lit ''code'', JStr (lit ''return null''))])"
  by (simp add: parse_config_def null_block_def json_eval text_eval)

lemma resolve_calls: "resolve env config = (r, cs) \<Longrightarrow> filter is_invoke cs = []"
  by (auto simp: resolve_def is_invoke_def split: sum.splits if_splits)

lemma resolve_main_calls: "resolve_main env config = (r, cs) \<Longrightarrow> filter is_invoke cs = []"
  by (auto simp: resolve_main_def is_invoke_def split: sum.splits if_splits)

lemma plotFunction_calls:
  "plotFunction env code data = (kids, cs, how) \<Longrightarrow>
   filter is_invoke cs =
     (case new_Function env userFunction_params (userFunction_body code) of
        Inl e \<Rightarrow> []
      | Inr f \<Rightarrow>
          [Invoke userFunction_params (userFunction_body code) (userFunction_args data)])"
  by (auto simp: plotFunction_def is_invoke_def Let_def split: settled.splits sum.splits if_splits)

lemma plotFunction_main_calls:
  "plotFunction_main env code data = (kids, cs, how) \<Longrightarrow>
   filter is_invoke cs =
     (case new_Function env userFunction_params_main (userFunction_body_main code) of
        Inl e \<Rightarrow> []
      | Inr f \<Rightarrow>
          [Invoke userFunction_params_main (userFunction_body_main code)
             (userFunction_args_main data)])"
  by (auto simp: plotFunction_main_def is_invoke_def Let_def
      split: settled.splits sum.splits if_splits)

lemma draw_invokes:
  assumes "truthy code" and "inert (code_text env code)"
  shows "filter is_invoke (calls (draw env code plotData el cs)) =
           filter is_invoke cs @
           (case new_Function env userFunction_params (userFunction_body (code_text env code)) of
              Inl e \<Rightarrow> []
            | Inr f \<Rightarrow>
                [Invoke userFunction_params (userFunction_body (code_text env code))
                   (userFunction_args plotData)])"
proof -
  obtain kids cs' how where p: "plotFunction env (code_text env code) plotData = (kids, cs', how)"
    by (metis prod_cases3)
  show ?thesis
    using assms p plotFunction_calls [OF p] by (simp add: draw_def)
qed

lemma draw_main_invokes:
  assumes "truthy code" and "inert (code_text env code)"
  shows "filter is_invoke (calls (draw_main env code plotData el cs)) =
           filter is_invoke cs @
           (case new_Function env userFunction_params_main
                   (userFunction_body_main (code_text env code)) of
              Inl e \<Rightarrow> []
            | Inr f \<Rightarrow>
                [Invoke userFunction_params_main (userFunction_body_main (code_text env code))
                   (userFunction_args_main plotData)])"
proof -
  obtain kids cs' how where
    p: "plotFunction_main env (code_text env code) plotData = (kids, cs', how)"
    by (metis prod_cases3)
  show ?thesis
    using assms p plotFunction_main_calls [OF p]
    by (cases how; cases "case how of Threw m \<Rightarrow> m | _ \<Rightarrow> None")
       (auto simp: draw_main_def after_call_def show_error_def)
qed

lemma inert_return_null: "inert (lit ''return null'')"
  by (simp add: inert_def lit_def startsWith_def)

text \<open>
  The numeral of a number denotes that number, and the three replacements act on an
  escape that follows a text without backslashes as the source says.
\<close>

lemma digits_val_snoc: "digits_val (ds @ [d]) = 10 * digits_val ds + (d - 48)"
  by (simp add: digits_val_def)

lemma show_nat_value: "digits_val (show_nat n) = n"
proof (induction n rule: show_nat.induct)
  case (1 n)
  show ?case
  proof (cases "n < 10")
    case True
    then show ?thesis by (simp add: show_nat.simps [of n] digits_val_def)
  next
    case False
    then have "digits_val (show_nat (n div 10)) = n div 10" using 1 by simp
    with False show ?thesis by (simp add: show_nat.simps [of n] digits_val_snoc)
  qed
qed

lemma show_nat_digits: "list_all is_digit (show_nat n)"
proof (induction n rule: show_nat.induct)
  case (1 n)
  show ?case
  proof (cases "n < 10")
    case True
    then show ?thesis by (simp add: show_nat.simps [of n] is_digit_def)
  next
    case False
    then have "list_all is_digit (show_nat (n div 10))" using 1 by simp
    moreover have "n mod 10 \<le> 9" by presburger
    then have "is_digit (48 + n mod 10)" by (simp add: is_digit_def)
    ultimately show ?thesis using False
      by (simp add: show_nat.simps [of n])
  qed
qed

lemma show_nat_nonempty: "show_nat n \<noteq> []"
  by (simp add: show_nat.simps [of n])

lemma show_nat_leading: "hd (show_nat n) = 48 \<Longrightarrow> n = 0"
proof (induction n rule: show_nat.induct)
  case (1 n)
  show ?case
  proof (cases "n < 10")
    case True
    with 1(2) show ?thesis by (simp add: show_nat.simps [of n])
  next
    case False
    with 1(2) have "hd (show_nat (n div 10)) = 48"
      by (simp add: show_nat.simps [of n] show_nat_nonempty)
    then have "n div 10 = 0" using 1(1) False by simp
    with False show ?thesis by simp
  qed
qed

lemma show_nat_500: "show_nat 500 = lit ''500''"
  by (simp add: show_nat.simps lit_def)








section \<open>The tolerant path\<close>

text \<open>
  C9. Whenever the direct parse fails and the tolerant path yields a configuration, the
  code field of that configuration is a string without any backslash: it is the
  captured payload after the three replacements, the last of which deletes every
  backslash that is left. An escape of the payload such as \<open>\d\<close> therefore loses its
  backslash.
\<close>

theorem tolerant_code_has_no_backslash:
  assumes "JSON_parse source = None" and "parse_config env source = Inr config"
  shows "\<exists>m code. regex_match source = Some m \<and> code = actualCode (payload m) \<and>
           get_prop config (lit ''code'') = Inr (JStr code) \<and> 92 \<notin> set code \<and>
           actualCode ([92] @ lit ''d'') = lit ''d''"
proof -
  from parse_config_tolerant [OF assms] obtain m :: code_match and cfg where
    m: "regex_match source = Some m" and
    "set_prop cfg (lit ''code'') (JStr (actualCode (payload m))) = Inr config"
    by blast
  then have "get_prop config (lit ''code'') = Inr (JStr (actualCode (payload m)))"
    using get_set_prop by blast
  moreover have "actualCode ([92] @ lit ''d'') = lit ''d''"
    by (simp add: actualCode_def delete_all_def lit_def)
  ultimately show ?thesis
    using m actualCode_no_backslash by blast
qed

theorem tolerant_code_has_no_backslash_witness:
  "\<exists>m code. regex_match regex_block = Some m \<and> code = actualCode (payload m) \<and>
     get_prop (JObj [(lit ''code'', JStr (lit ''\"d\"\<newline>''))]) (lit ''code'') = Inr (JStr code) \<and>
     92 \<notin> set code \<and> actualCode ([92] @ lit ''d'') = lit ''d''"
  using tolerant_code_has_no_backslash [OF regex_block_invalid regex_block_parse [of quiet_env]]
  by simp




section \<open>The source of the data\<close>

text \<open>
  C3. A configuration that has neither a \<open>dataUrl\<close> nor a \<open>data\<close> field (both
  reads give \<open>undefined\<close>) is refused with the error whose message is
  \<open>Either data or dataUrl must be provided\<close>; the processor writes that message
  into the element, and no call is made at all, so nothing is fetched. This holds for
  both processors. (The value \<open>null\<close> is not a configuration: it has no fields, and
  reading one from it raises before this test.)
\<close>

theorem missing_source_is_an_error:
  assumes "parse_config env source = Inr config"
    and "get_prop config (lit ''dataUrl'') = Inr JUndefined"
    and "get_prop config (lit ''data'') = Inr JUndefined"
  shows "resolve env config =
           (Inl (Error (lit ''Either data or dataUrl must be provided'')), []) \<and>
         render env source el =
           \<lparr>dom = [TextNode (lit ''Error rendering plot: '' @
                     lit ''Either data or dataUrl must be provided'')], calls = []\<rparr> \<and>
         resolve_main env config =
           (Inl (Error (lit ''Either data or dataUrl must be provided'')), []) \<and>
         render_main env source el =
           \<lparr>dom = [TextNode (lit ''Error rendering plot: '' @
                     lit ''Either data or dataUrl must be provided'')], calls = []\<rparr>"
  using assms
  by (simp add: resolve_def resolve_main_def render_def render_main_def show_error_def)

theorem missing_source_is_an_error_witness:
  "resolve quiet_env (JObj []) =
     (Inl (Error (lit ''Either data or dataUrl must be provided'')), []) \<and>
   render quiet_env empty_block [] =
     \<lparr>dom = [TextNode (lit ''Error rendering plot: '' @
               lit ''Either data or dataUrl must be provided'')], calls = []\<rparr> \<and>
   resolve_main quiet_env (JObj []) =
     (Inl (Error (lit ''Either data or dataUrl must be provided'')), []) \<and>
   render_main quiet_env empty_block [] =
     \<lparr>dom = [TextNode (lit ''Error rendering plot: '' @
               lit ''Either data or dataUrl must be provided'')], calls = []\<rparr>"
proof -
  have a: "get_prop (JObj []) (lit ''dataUrl'') = Inr JUndefined"
    by (simp add: lookup_def)
  have b: "get_prop (JObj []) (lit ''data'') = Inr JUndefined"
    by (simp add: lookup_def)
  show ?thesis
    using missing_source_is_an_error [OF empty_block_parse a b, of quiet_env "[]"] by simp
qed

text \<open>
  C10. When \<open>dataUrl\<close> is the empty string it is falsy and counts as absent: the
  inline data is used when it is truthy, as an array always is, the error for a missing
  source is raised when \<open>data\<close> is absent, and in no case is anything fetched. This
  holds for both processors.
\<close>

theorem empty_dataUrl_counts_as_absent:
  assumes "get_prop config (lit ''dataUrl'') = Inr (JStr [])"
    and "get_prop config (lit ''data'') = Inr data"
  shows "resolve env config =
           (if truthy data then Inr data
            else Inl (Error (lit ''Either data or dataUrl must be provided'')), []) \<and>
         (isArray data \<longrightarrow> resolve env config = (Inr data, [])) \<and>
         (data = JUndefined \<longrightarrow>
            resolve env config =
              (Inl (Error (lit ''Either data or dataUrl must be provided'')), [])) \<and>
         resolve_main env config = resolve env config \<and>
         (\<forall>u. Fetch u \<notin> set (snd (resolve env config)))"
  using assms
  by (cases data) (auto simp: resolve_def resolve_main_def isArray_def)

theorem empty_dataUrl_counts_as_absent_witness:
  "resolve quiet_env (JObj [(lit ''dataUrl'', JStr []), (lit ''data'', JArr [] [])]) =
     (Inr (JArr [] []), []) \<and>
   resolve_main quiet_env (JObj [(lit ''dataUrl'', JStr []), (lit ''data'', JArr [] [])]) =
     (Inr (JArr [] []), [])"
proof -
  have a: "get_prop (JObj [(lit ''dataUrl'', JStr []), (lit ''data'', JArr [] [])])
      (lit ''dataUrl'') = Inr (JStr [])"
    by (simp add: lookup_def lit_def)
  have b: "get_prop (JObj [(lit ''dataUrl'', JStr []), (lit ''data'', JArr [] [])])
      (lit ''data'') = Inr (JArr [] [])"
    by (simp add: lookup_def lit_def)
  show ?thesis
    using empty_dataUrl_counts_as_absent [OF a b, of quiet_env] by simp
qed

text \<open>
  C6. When \<open>dataUrl\<close> is a non-empty string, the data comes from that URL: the one
  call made is the fetch of it, and the result is a function of the fetch alone, so it
  is the same for every configuration with this \<open>dataUrl\<close>, whatever its \<open>data\<close>
  field holds. When the request fails, or the status is not a success, the result is
  the error, not the inline data. All of this holds for both processors.
\<close>

theorem dataUrl_takes_precedence:
  assumes "get_prop config (lit ''dataUrl'') = Inr (JStr u)" and "u \<noteq> []"
  shows "resolve env config =
           (case fetch_data env (JStr u) of
              Inl e \<Rightarrow> Inl (Error (lit ''Failed to fetch data from URL: '' @ message e))
            | Inr plotData \<Rightarrow> Inr plotData,
            [Fetch (JStr u)]) \<and>
         resolve_main env config =
           (case fetch_data_main env (JStr u) of
              Inl e \<Rightarrow> Inl (Error (lit ''Failed to fetch data from URL: '' @ message e))
            | Inr plotData \<Rightarrow> Inr plotData,
            [Fetch (JStr u)]) \<and>
         (\<forall>config'. get_prop config' (lit ''dataUrl'') = Inr (JStr u) \<longrightarrow>
            resolve env config' = resolve env config \<and>
            resolve_main env config' = resolve_main env config) \<and>
         (\<forall>e. fetch env (JStr u) = Inl e \<longrightarrow>
            resolve env config =
              (Inl (Error (lit ''Failed to fetch data from URL: '' @ message e)),
               [Fetch (JStr u)]) \<and>
            resolve_main env config =
              (Inl (Error (lit ''Failed to fetch data from URL: '' @ message e)),
               [Fetch (JStr u)])) \<and>
         (\<forall>r. fetch env (JStr u) = Inr r \<and> \<not> ok r \<longrightarrow>
            resolve env config =
              (Inl (Error (lit ''Failed to fetch data from URL: '' @
                           lit ''HTTP error! status: '' @ show_nat (status r))),
               [Fetch (JStr u)]) \<and>
            resolve_main env config =
              (Inl (Error (lit ''Failed to fetch data from URL: '' @
                           lit ''HTTP error! status: '' @ show_nat (status r))),
               [Fetch (JStr u)]))"
  using assms
  by (auto simp: resolve_def fetch_data_def resolve_main_def fetch_data_main_def
      split: sum.splits)

theorem dataUrl_takes_precedence_witness:
  "resolve quiet_env (JObj [(lit ''dataUrl'', JStr (lit ''u'')), (lit ''data'', JArr [] [])]) =
     (Inl (Error (lit ''Failed to fetch data from URL: '' @ lit ''Failed to fetch'')),
      [Fetch (JStr (lit ''u''))]) \<and>
   resolve_main quiet_env
       (JObj [(lit ''dataUrl'', JStr (lit ''u'')), (lit ''data'', JArr [] [])]) =
     (Inl (Error (lit ''Failed to fetch data from URL: '' @ lit ''Failed to fetch'')),
      [Fetch (JStr (lit ''u''))])"
proof -
  let ?config = "JObj [(lit ''dataUrl'', JStr (lit ''u'')), (lit ''data'', JArr [] [])]"
  have a: "get_prop ?config (lit ''dataUrl'') = Inr (JStr (lit ''u''))"
    by (simp add: lookup_def lit_def)
  have b: "lit ''u'' \<noteq> []" by (simp add: lit_def)
  have c: "fetch quiet_env (JStr (lit ''u'')) = Inl (Error (lit ''Failed to fetch''))"
    by (simp add: quiet_env_def)
  from dataUrl_takes_precedence [OF a b, of quiet_env] c
  have "resolve quiet_env ?config =
      (Inl (Error (lit ''Failed to fetch data from URL: '' @
                   message (Error (lit ''Failed to fetch'')))),
       [Fetch (JStr (lit ''u''))]) \<and>
    resolve_main quiet_env ?config =
      (Inl (Error (lit ''Failed to fetch data from URL: '' @
                   message (Error (lit ''Failed to fetch'')))),
       [Fetch (JStr (lit ''u''))])"
    by blast
  then show ?thesis by simp
qed

text \<open>
  C8. When the response to the fetch has a status outside 200 to 299, resolution fails
  with an error whose message ends with the decimal status, and the element ends up
  holding one text node: the prefix \<open>Error rendering plot: \<close> followed by the message
  of that error, unchanged. No graphic and no container is left in the element. The
  processor of main.ts gives the same. The status is printed as its decimal numeral:
  digits only, without a leading zero, and denoting the status; for 404 it is
  \<open>404\<close> and for 500 it is \<open>500\<close>.
\<close>

theorem failed_status_is_shown:
  assumes "parse_config env source = Inr config"
    and "get_prop config (lit ''dataUrl'') = Inr url" and "truthy url"
    and "fetch env url = Inr r" and "\<not> ok r"
  shows "resolve env config =
           (Inl (Error (lit ''Failed to fetch data from URL: '' @
                        lit ''HTTP error! status: '' @ show_nat (status r))), [Fetch url]) \<and>
         render env source el =
           \<lparr>dom = [TextNode (lit ''Error rendering plot: '' @
                     lit ''Failed to fetch data from URL: '' @
                     lit ''HTTP error! status: '' @ show_nat (status r))],
            calls = [Fetch url]\<rparr> \<and>
         render_main env source el = render env source el \<and>
         digits_val (show_nat (status r)) = status r \<and>
         list_all is_digit (show_nat (status r)) \<and>
         (hd (show_nat (status r)) = 48 \<longrightarrow> status r = 0) \<and>
         show_nat 404 = lit ''404'' \<and> show_nat 500 = lit ''500''"
  using assms show_nat_leading [of "status r"]
  by (simp add: resolve_def fetch_data_def render_def resolve_main_def fetch_data_main_def
      render_main_def show_error_def show_nat_404 show_nat_500 show_nat_value show_nat_digits)

theorem failed_status_is_shown_witness:
  "render (quiet_env\<lparr>fetch := \<lambda>u. Inr \<lparr>status = 500, body = Inr []\<rparr>\<rparr>) url_block [] =
     \<lparr>dom = [TextNode (lit ''Error rendering plot: '' @
               lit ''Failed to fetch data from URL: '' @
               lit ''HTTP error! status: '' @ lit ''500'')],
      calls = [Fetch (JStr (lit ''u''))]\<rparr>"
proof -
  let ?env = "quiet_env\<lparr>fetch := \<lambda>u. Inr \<lparr>status = 500, body = Inr []\<rparr>\<rparr>"
  have a: "get_prop (JObj [(lit ''dataUrl'', JStr (lit ''u'')), (lit ''data'', JArr [] [])])
      (lit ''dataUrl'') = Inr (JStr (lit ''u''))"
    by (simp add: lookup_def lit_def)
  have b: "truthy (JStr (lit ''u''))" by (simp add: lit_def)
  have c: "fetch ?env (JStr (lit ''u'')) = Inr \<lparr>status = 500, body = Inr []\<rparr>" by simp
  have d: "\<not> ok \<lparr>status = 500, body = Inr []\<rparr>" by (simp add: ok_def)
  show ?thesis
    using failed_status_is_shown [OF url_block_parse a b c d, of "[]"] by simp
qed

text \<open>
  C5. When the path of the URL ends in \<open>.csv\<close> and the fetch succeeds, the data is
  what the parser for comma-separated values with type inference makes of the body. With
  the parser as the spec describes it, the body \<open>a,b\<close>, \<open>1,2\<close>, \<open>3,4\<close> (three
  lines) gives the two records \<open>{a: 1, b: 2}\<close> and \<open>{a: 3, b: 4}\<close>, whose fields
  are numbers.
\<close>

theorem csv_is_parsed_with_type_inference:
  assumes "get_prop config (lit ''dataUrl'') = Inr url" and "truthy url"
    and "fetch env url = Inr r" and "ok r" and "body r = Inr content"
    and "URL_pathname env url = Inr (stem @ lit ''.csv'')"
    and "csvParse env = (\<lambda>t. Inr (dsvParse 44 t))"
  shows "resolve env config = (Inr (dsvParse 44 content), [Fetch url]) \<and>
         dsvParse 44 (lit ''a,b\<newline>1,2\<newline>3,4'') =
           JArr [JObj [(lit ''a'', JNum 1), (lit ''b'', JNum 2)],
                 JObj [(lit ''a'', JNum 3), (lit ''b'', JNum 4)]] []"
proof -
  have "fetch_data env url = Inr (dsvParse 44 content)"
    using assms by (simp add: fetch_data_def ext_csv parse_body_def dsvParse_defined)
  then have "resolve env config = (Inr (dsvParse 44 content), [Fetch url])"
    using assms(1,2) by (simp add: resolve_def)
  moreover have "dsvParse 44 (lit ''a,b\<newline>1,2\<newline>3,4'') =
           JArr [JObj [(lit ''a'', JNum 1), (lit ''b'', JNum 2)],
                 JObj [(lit ''a'', JNum 3), (lit ''b'', JNum 4)]] []"
    by (simp add: dsvParse_def dsv_record_def autoType_def numeric_looking_def json_eval lit_def)
  ultimately show ?thesis by simp
qed

theorem csv_is_parsed_with_type_inference_witness:
  "resolve (quiet_env\<lparr>fetch := \<lambda>u. Inr \<lparr>status = 200, body = Inr (lit ''a,b\<newline>1,2\<newline>3,4'')\<rparr>,
                      URL_pathname := \<lambda>u. Inr (lit ''/d'' @ lit ''.csv'')\<rparr>)
     (JObj [(lit ''dataUrl'', JStr (lit ''u'')), (lit ''data'', JArr [] [])]) =
     (Inr (JArr [JObj [(lit ''a'', JNum 1), (lit ''b'', JNum 2)],
                 JObj [(lit ''a'', JNum 3), (lit ''b'', JNum 4)]] []),
      [Fetch (JStr (lit ''u''))])"
proof -
  let ?env = "quiet_env\<lparr>fetch := \<lambda>u. Inr \<lparr>status = 200, body = Inr (lit ''a,b\<newline>1,2\<newline>3,4'')\<rparr>,
                      URL_pathname := \<lambda>u. Inr (lit ''/d'' @ lit ''.csv'')\<rparr>"
  have a: "get_prop (JObj [(lit ''dataUrl'', JStr (lit ''u'')), (lit ''data'', JArr [] [])])
      (lit ''dataUrl'') = Inr (JStr (lit ''u''))"
    by (simp add: lookup_def lit_def)
  have b: "truthy (JStr (lit ''u''))" by (simp add: lit_def)
  have c: "fetch ?env (JStr (lit ''u'')) =
      Inr \<lparr>status = 200, body = Inr (lit ''a,b\<newline>1,2\<newline>3,4'')\<rparr>" by simp
  have d: "ok \<lparr>status = 200, body = Inr (lit ''a,b\<newline>1,2\<newline>3,4'')\<rparr>" by (simp add: ok_def)
  have e: "body \<lparr>status = 200, body = Inr (lit ''a,b\<newline>1,2\<newline>3,4'')\<rparr> =
      Inr (lit ''a,b\<newline>1,2\<newline>3,4'')" by simp
  have f: "URL_pathname ?env (JStr (lit ''u'')) = Inr (lit ''/d'' @ lit ''.csv'')" by simp
  have g: "csvParse ?env = (\<lambda>t. Inr (dsvParse 44 t))" by (simp add: quiet_env_def)
  show ?thesis
    using csv_is_parsed_with_type_inference [OF a b c d e f g] by simp
qed

section \<open>Drawing\<close>

text \<open>
  C7. When the configuration has no code payload (the value of \<open>code\<close> is falsy, as
  it is when the field is absent), the data has been resolved and the library makes a
  dot mark of it, the processor calls the plotting library once, with the object whose
  width is 640, whose height is 400, whose margin is 40 and whose marks are exactly
  that one dot mark over the resolved data; the graphic that comes back is put into
  the container.
\<close>

theorem default_plot_without_code:
  assumes "parse_config env source = Inr config"
    and "resolve env config = (Inr plotData, cs)"
    and "get_prop config (lit ''code'') = Inr code" and "\<not> truthy code"
    and "Plot_dot env plotData = Inr mark"
  shows "calls (render env source el) =
           cs @ [PlotDot plotData,
                 PlotPlot (JObj [(lit ''width'', JNum 640), (lit ''height'', JNum 400),
                                 (lit ''margin'', JNum 40), (lit ''marks'', JArr [mark] [])])] \<and>
         (\<forall>g. Plot_plot env (JObj [(lit ''width'', JNum 640), (lit ''height'', JNum 400),
                                   (lit ''margin'', JNum 40), (lit ''marks'', JArr [mark] [])]) =
                Inr (JElement g) \<longrightarrow>
              dom (render env source el) = el @ [Div container_class [Graphic (JElement g)]])"
  using assms
  by (auto simp: render_def draw_def default_plot_def default_spec_def show_error_def attach_def
      split: sum.splits)

theorem default_plot_without_code_witness:
  "render quiet_env records_block [] =
     \<lparr>dom = [Div container_class [Graphic (JElement 0)]],
      calls = [PlotDot (JArr [JObj [(lit ''x'', JNum 1)], JObj [(lit ''x'', JNum 2)],
                              JObj [(lit ''x'', JNum 3)]] []),
               PlotPlot (JObj [(lit ''width'', JNum 640), (lit ''height'', JNum 400),
                               (lit ''margin'', JNum 40), (lit ''marks'', JArr [JHost 3] [])])]\<rparr>"
proof -
  let ?data = "JArr [JObj [(lit ''x'', JNum 1)], JObj [(lit ''x'', JNum 2)],
                     JObj [(lit ''x'', JNum 3)]] []"
  let ?config = "JObj [(lit ''data'', ?data)]"
  have a: "resolve quiet_env ?config = (Inr ?data, [])"
    by (simp add: resolve_def lookup_def lit_def)
  have b: "get_prop ?config (lit ''code'') = Inr JUndefined"
    by (simp add: lookup_def lit_def)
  have c: "\<not> truthy JUndefined" by simp
  have d: "Plot_dot quiet_env ?data = Inr (JHost 3)" by (simp add: quiet_env_def)
  have e: "Plot_plot quiet_env (JObj [(lit ''width'', JNum 640), (lit ''height'', JNum 400),
             (lit ''margin'', JNum 40), (lit ''marks'', JArr [JHost 3] [])]) = Inr (JElement 0)"
    by (simp add: quiet_env_def)
  from default_plot_without_code [OF records_block_parse a b c d, of "[]"] e
  have "calls (render quiet_env records_block []) =
          [PlotDot ?data,
           PlotPlot (JObj [(lit ''width'', JNum 640), (lit ''height'', JNum 400),
                           (lit ''margin'', JNum 40), (lit ''marks'', JArr [JHost 3] [])])]"
    and "dom (render quiet_env records_block []) = [Div container_class [Graphic (JElement 0)]]"
    by auto
  then show ?thesis by (cases "render quiet_env records_block []") simp
qed

text \<open>
  C4. When the payload (one that the template literal leaves unchanged) is accepted as a
  function body, runs and returns null or undefined, the run fails with the error whose
  message is \<open>No plot specification returned\<close>: the plotting library is not called,
  no graphic is attached, and the only thing shown is that message, in the container
  for the asynchronous processor and in the element for the processor of main.ts.
\<close>

theorem no_specification_is_an_error:
  assumes "parse_config env source = Inr config"
    and "get_prop config (lit ''code'') = Inr code" and "truthy code"
    and "inert (code_text env code)"
    and "v = JNull \<or> v = JUndefined"
  shows "(resolve env config = (Inr plotData, cs) \<and>
          new_Function env userFunction_params (userFunction_body (code_text env code)) = Inr f \<and>
          invoke env f (userFunction_args plotData) = Returned v \<longrightarrow>
            render env source el =
              \<lparr>dom = el @ [Div container_class
                        [TextNode (lit ''Error generating plot: '' @
                                   lit ''No plot specification returned'')]],
               calls = cs @ [Invoke userFunction_params (userFunction_body (code_text env code))
                               (userFunction_args plotData)]\<rparr>) \<and>
         (resolve_main env config = (Inr plotData, cs) \<and>
          new_Function env userFunction_params_main
            (userFunction_body_main (code_text env code)) = Inr f \<and>
          invoke env f (userFunction_args_main plotData) = Returned v \<longrightarrow>
            render_main env source el =
              \<lparr>dom = [TextNode (lit ''Error rendering plot: '' @
                                lit ''No plot specification returned'')],
               calls = cs @ [Invoke userFunction_params_main
                               (userFunction_body_main (code_text env code))
                               (userFunction_args_main plotData)]\<rparr>)"
  using assms
  by (auto simp: render_def draw_def plotFunction_def on_rejection_def
      render_main_def draw_main_def plotFunction_main_def after_call_def show_error_def)

theorem no_specification_is_an_error_witness:
  "render (quiet_env\<lparr>invoke := \<lambda>f as. Returned JNull\<rparr>) null_block [] =
     \<lparr>dom = [Div container_class
               [TextNode (lit ''Error generating plot: '' @ lit ''No plot specification returned'')]],
      calls = [Invoke userFunction_params (userFunction_body (lit ''return null''))
                 (userFunction_args (JArr [] []))]\<rparr> \<and>
   render_main (quiet_env\<lparr>invoke := \<lambda>f as. Returned JNull\<rparr>) null_block [] =
     \<lparr>dom = [TextNode (lit ''Error rendering plot: '' @ lit ''No plot specification returned'')],
      calls = [Invoke userFunction_params_main (userFunction_body_main (lit ''return null''))
                 (userFunction_args_main (JArr [] []))]\<rparr>"
proof -
  let ?env = "quiet_env\<lparr>invoke := \<lambda>f as. Returned JNull\<rparr>"
  let ?config = "JObj [(lit ''data'', JArr [] []), (lit ''code'', JStr (lit ''return null''))]"
  have b: "get_prop ?config (lit ''code'') = Inr (JStr (lit ''return null''))"
    by (simp add: lookup_def lit_def)
  have c: "truthy (JStr (lit ''return null''))" by (simp add: lit_def)
  have t: "code_text ?env (JStr (lit ''return null'')) = lit ''return null''"
    by (simp add: code_text_def)
  have d: "inert (code_text ?env (JStr (lit ''return null'')))"
    unfolding t by (rule inert_return_null)
  have e: "JNull = JNull \<or> JNull = JUndefined" by simp
  have r: "resolve ?env ?config = (Inr (JArr [] []), [])"
    by (simp add: resolve_def lookup_def lit_def)
  have r': "resolve_main ?env ?config = (Inr (JArr [] []), [])"
    by (simp add: resolve_main_def lookup_def lit_def)
  have n: "new_Function ?env ps b = Inr 0" for ps b by (simp add: quiet_env_def)
  show ?thesis
    using no_specification_is_an_error [OF null_block_parse b c d e, of "JArr [] []" "[]" 0 "[]"]
      r r' t n
    by simp
qed

text \<open>
  C2, as the code has it. Let the data be resolved and the payload be one that the
  template literal leaves unchanged. The function for it is made with the parameter
  list \<open>Plot\<close>, \<open>d3\<close>, \<open>data\<close>, \<open>topojson\<close>, in this order (\<open>Plot\<close>,
  \<open>d3\<close>, \<open>data\<close> in main.ts, which has no topology library), and with a body in
  which the payload stands unchanged between a fixed opening and a fixed ending. When
  the engine accepts that body, the function is invoked exactly once, with the two
  libraries, the resolved data and the topology library as arguments, in the order of
  the parameters; when the engine refuses the body, it is not invoked at all.
\<close>

theorem payload_parameters_in_order:
  assumes "parse_config env source = Inr config"
    and "get_prop config (lit ''code'') = Inr code" and "truthy code"
    and "inert (code_text env code)"
  shows "(resolve env config = (Inr plotData, cs) \<and>
          new_Function env [lit ''Plot'', lit ''d3'', lit ''data'', lit ''topojson'']
            (userFunction_body (code_text env code)) = Inr f \<longrightarrow>
            filter is_invoke (calls (render env source el)) =
              [Invoke [lit ''Plot'', lit ''d3'', lit ''data'', lit ''topojson'']
                 (userFunction_body (code_text env code))
                 [Plot, d3, plotData, topojson]]) \<and>
         (resolve env config = (Inr plotData, cs) \<and>
          new_Function env [lit ''Plot'', lit ''d3'', lit ''data'', lit ''topojson'']
            (userFunction_body (code_text env code)) = Inl e \<longrightarrow>
            filter is_invoke (calls (render env source el)) = []) \<and>
         (resolve_main env config = (Inr plotData, cs) \<and>
          new_Function env [lit ''Plot'', lit ''d3'', lit ''data'']
            (userFunction_body_main (code_text env code)) = Inr f \<longrightarrow>
            filter is_invoke (calls (render_main env source el)) =
              [Invoke [lit ''Plot'', lit ''d3'', lit ''data'']
                 (userFunction_body_main (code_text env code))
                 [Plot, d3, plotData]]) \<and>
         (resolve_main env config = (Inr plotData, cs) \<and>
          new_Function env [lit ''Plot'', lit ''d3'', lit ''data'']
            (userFunction_body_main (code_text env code)) = Inl e \<longrightarrow>
            filter is_invoke (calls (render_main env source el)) = []) \<and>
         userFunction_body (code_text env code) =
           ([10] @ replicate 36 32 @ lit ''return (async () => {'' @
            [10] @ replicate 40 32 @ lit ''try {'' @ [10] @ replicate 44 32) @
           code_text env code @
           ([10] @ replicate 40 32 @ lit ''} catch (e) {'' @
            [10] @ replicate 44 32 @ lit ''throw e;'' @
            [10] @ replicate 40 32 @ lit ''}'' @
            [10] @ replicate 36 32 @ lit ''})();'' @
            [10] @ replicate 32 32) \<and>
         userFunction_body_main (code_text env code) =
           ([10] @ replicate 32 32 @ lit ''try {'' @ [10] @ replicate 36 32) @
           code_text env code @
           ([10] @ replicate 32 32 @ lit ''} catch (e) {'' @
            [10] @ replicate 36 32 @ lit ''throw e;'' @
            [10] @ replicate 32 32 @ lit ''}'' @
            [10] @ replicate 28 32)"
proof -
  have p: "userFunction_params = [lit ''Plot'', lit ''d3'', lit ''data'', lit ''topojson'']"
    by (simp add: userFunction_params_def)
  have pm: "userFunction_params_main = [lit ''Plot'', lit ''d3'', lit ''data'']"
    by (simp add: userFunction_params_main_def)
  have a: "filter is_invoke (calls (render env source el)) =
      (case new_Function env [lit ''Plot'', lit ''d3'', lit ''data'', lit ''topojson'']
              (userFunction_body (code_text env code)) of
         Inl e \<Rightarrow> []
       | Inr f \<Rightarrow> [Invoke [lit ''Plot'', lit ''d3'', lit ''data'', lit ''topojson'']
                    (userFunction_body (code_text env code)) [Plot, d3, plotData, topojson]])"
    if r: "resolve env config = (Inr plotData, cs)"
    using assms r resolve_calls [OF r] draw_invokes [OF assms(3,4), of plotData el cs]
    by (simp add: render_def p userFunction_args_def split: sum.splits)
  have b: "filter is_invoke (calls (render_main env source el)) =
      (case new_Function env [lit ''Plot'', lit ''d3'', lit ''data'']
              (userFunction_body_main (code_text env code)) of
         Inl e \<Rightarrow> []
       | Inr f \<Rightarrow> [Invoke [lit ''Plot'', lit ''d3'', lit ''data'']
                    (userFunction_body_main (code_text env code)) [Plot, d3, plotData]])"
    if r: "resolve_main env config = (Inr plotData, cs)"
    using assms r resolve_main_calls [OF r] draw_main_invokes [OF assms(3,4), of plotData el cs]
    by (simp add: render_main_def pm userFunction_args_main_def split: sum.splits)
  have c: "userFunction_body (code_text env code) =
           ([10] @ replicate 36 32 @ lit ''return (async () => {'' @
            [10] @ replicate 40 32 @ lit ''try {'' @ [10] @ replicate 44 32) @
           code_text env code @
           ([10] @ replicate 40 32 @ lit ''} catch (e) {'' @
            [10] @ replicate 44 32 @ lit ''throw e;'' @
            [10] @ replicate 40 32 @ lit ''}'' @
            [10] @ replicate 36 32 @ lit ''})();'' @
            [10] @ replicate 32 32)"
    by (simp add: userFunction_body_def)
  have d: "userFunction_body_main (code_text env code) =
           ([10] @ replicate 32 32 @ lit ''try {'' @ [10] @ replicate 36 32) @
           code_text env code @
           ([10] @ replicate 32 32 @ lit ''} catch (e) {'' @
            [10] @ replicate 36 32 @ lit ''throw e;'' @
            [10] @ replicate 32 32 @ lit ''}'' @
            [10] @ replicate 28 32)"
    by (simp add: userFunction_body_main_def)
  show ?thesis
    apply (intro conjI impI)
    subgoal using a by simp
    subgoal using a by simp
    subgoal using b by simp
    subgoal using b by simp
    subgoal by (rule c)
    subgoal by (rule d)
    done
qed

theorem payload_parameters_in_order_witness:
  "filter is_invoke (calls (render quiet_env null_block [])) =
     [Invoke [lit ''Plot'', lit ''d3'', lit ''data'', lit ''topojson'']
        (userFunction_body (lit ''return null'')) [Plot, d3, JArr [] [], topojson]] \<and>
   filter is_invoke (calls (render_main quiet_env null_block [])) =
     [Invoke [lit ''Plot'', lit ''d3'', lit ''data'']
        (userFunction_body_main (lit ''return null'')) [Plot, d3, JArr [] []]] \<and>
   filter is_invoke (calls (render (quiet_env\<lparr>new_Function :=
       \<lambda>ps b. Inl (Error (lit ''Unexpected end of input''))\<rparr>) null_block [])) = []"
proof -
  let ?config = "JObj [(lit ''data'', JArr [] []), (lit ''code'', JStr (lit ''return null''))]"
  let ?bad = "quiet_env\<lparr>new_Function := \<lambda>ps b. Inl (Error (lit ''Unexpected end of input''))\<rparr>"
  have b: "get_prop ?config (lit ''code'') = Inr (JStr (lit ''return null''))"
    by (simp add: lookup_def lit_def)
  have c: "truthy (JStr (lit ''return null''))" by (simp add: lit_def)
  have t: "code_text env (JStr (lit ''return null'')) = lit ''return null''" for env
    by (simp add: code_text_def)
  have d: "inert (code_text env (JStr (lit ''return null'')))" for env
    unfolding t by (rule inert_return_null)
  have r: "resolve quiet_env ?config = (Inr (JArr [] []), [])"
    by (simp add: resolve_def lookup_def lit_def)
  have r': "resolve_main quiet_env ?config = (Inr (JArr [] []), [])"
    by (simp add: resolve_main_def lookup_def lit_def)
  have rb: "resolve ?bad ?config = (Inr (JArr [] []), [])"
    by (simp add: resolve_def lookup_def lit_def)
  have n: "new_Function quiet_env ps body = Inr 0" for ps body by (simp add: quiet_env_def)
  have nb: "new_Function ?bad ps body = Inl (Error (lit ''Unexpected end of input''))" for ps body
    by simp
  show ?thesis
    using payload_parameters_in_order [OF null_block_parse b c d,
        of quiet_env "JArr [] []" "[]" 0 "[]" "Error []"]
      payload_parameters_in_order [OF null_block_parse b c d,
        of ?bad "JArr [] []" "[]" 0 "[]" "Error (lit ''Unexpected end of input'')"]
      r r' rb t n nb
    by simp
qed

text \<open>
  C2, as it is stated, fails: it puts the topology library before the data and the
  data last. For the block below the function is made with \<open>data\<close> as its third
  parameter and \<open>topojson\<close> as its last.
\<close>

theorem data_is_not_the_last_parameter_counterexample:
  "filter is_invoke (calls (render quiet_env
       (lit ''{\"data\":[],\"code\":\"return null\"}'') [])) =
     [Invoke [lit ''Plot'', lit ''d3'', lit ''data'', lit ''topojson'']
        (userFunction_body (lit ''return null'')) [Plot, d3, JArr [] [], topojson]] \<and>
   [lit ''Plot'', lit ''d3'', lit ''data'', lit ''topojson''] \<noteq>
     [lit ''Plot'', lit ''d3'', lit ''topojson'', lit ''data'']"
proof -
  have "render quiet_env null_block [] =
      \<lparr>dom = [Div container_class
                [TextNode (lit ''Error generating plot: '' @ lit ''No plot specification returned'')]],
       calls = [Invoke userFunction_params (userFunction_body (lit ''return null''))
                 (userFunction_args (JArr [] []))]\<rparr>"
    by (simp add: render_def null_block_parse resolve_def lookup_def draw_def code_text_def
        inert_return_null plotFunction_def on_rejection_def)
       (simp add: lit_def quiet_env_def)
  then show ?thesis
    by (simp add: null_block_def is_invoke_def userFunction_params_def userFunction_args_def)
       (simp add: lit_def)
qed

end
